theory Spec2Isabelle
  imports Main "HOL-Library.Sublist"
begin

section \<open>JavaScript values\<close>

text \<open>
  The values that travel through the code as \<^verbatim>\<open>any\<close>: parsed JSON. An object is a
  finite map from property names to values. \<^verbatim>\<open>undefined\<close> is \<open>None\<close> of \<open>jv option\<close>, so
  a value of type \<^verbatim>\<open>any\<close> is a \<open>jv option\<close>. Numbers are the integers, as far as a
  JavaScript number holds them exactly and prints them in plain decimal (below
  \<open>10\<^sup>2\<^sup>1\<close> in magnitude); strings are lists of code units.
\<close>

datatype jv =
    JNull
  | JBool bool
  | JNum int
  | JStr string
  | JArr "jv list"
  | JObj "string \<Rightarrow> jv option"

text \<open>Truthiness, as \<^verbatim>\<open>if (x)\<close>, \<^verbatim>\<open>!x\<close> and \<^verbatim>\<open>x || y\<close> test it.\<close>

fun truthy :: "jv option \<Rightarrow> bool" where
  "truthy None = False"
| "truthy (Some JNull) = False"
| "truthy (Some (JBool b)) = b"
| "truthy (Some (JNum n)) = (n \<noteq> 0)"
| "truthy (Some (JStr s)) = (s \<noteq> [])"
| "truthy (Some (JArr xs)) = True"
| "truthy (Some (JObj ob)) = True"

text \<open>Decimal rendering of a number inside a template literal.\<close>

definition digit_char :: "nat \<Rightarrow> char" where
  "digit_char d = ''0123456789'' ! d"

fun show_nat :: "nat \<Rightarrow> string" where
  "show_nat n = (if n < 10 then [digit_char n] else show_nat (n div 10) @ [digit_char (n mod 10)])"

declare show_nat.simps [simp del]

definition show_int :: "int \<Rightarrow> string" where
  "show_int i = (if i < 0 then CHR ''-'' # show_nat (nat (- i)) else show_nat (nat i))"

fun join_comma :: "string list \<Rightarrow> string" where
  "join_comma [] = []"
| "join_comma [s] = s"
| "join_comma (s # t # ss) = s @ '','' @ join_comma (t # ss)"

text \<open>\<^verbatim>\<open>String(x)\<close>, which is also what \<^verbatim>\<open>${x}\<close> inserts into a template literal.\<close>

fun js_String :: "jv \<Rightarrow> string" where
  "js_String JNull = ''null''"
| "js_String (JBool b) = (if b then ''true'' else ''false'')"
| "js_String (JNum n) = show_int n"
| "js_String (JStr s) = s"
| "js_String (JArr xs) = join_comma (map (\<lambda>x. if x = JNull then [] else js_String x) xs)"
| "js_String (JObj ob) = ''[object Object]''"

definition interpolate :: "jv option \<Rightarrow> string" where
  "interpolate v = (case v of None \<Rightarrow> ''undefined'' | Some x \<Rightarrow> js_String x)"

text \<open>
  Reading a property. The client reads the properties \<^verbatim>\<open>success\<close>, \<^verbatim>\<open>id\<close>, \<^verbatim>\<open>error\<close>,
  \<^verbatim>\<open>details\<close>, \<^verbatim>\<open>status\<close> and \<^verbatim>\<open>statusCode\<close>: an object has them when its map does, and
  an array, a string, a number and a boolean have none of them. \<open>field\<close> is the read
  that cannot throw, \<^verbatim>\<open>x?.k\<close>: it yields \<^verbatim>\<open>undefined\<close> on \<^verbatim>\<open>null\<close> and \<^verbatim>\<open>undefined\<close> too.
\<close>

fun field :: "jv option \<Rightarrow> string \<Rightarrow> jv option" where
  "field (Some (JObj ob)) k = ob k"
| "field v k = None"

text \<open>\<^verbatim>\<open>typeof x === 'object'\<close> for a value that is not \<^verbatim>\<open>null\<close>: an object or an array.\<close>

fun is_object :: "jv option \<Rightarrow> bool" where
  "is_object (Some (JObj ob)) = True"
| "is_object (Some (JArr xs)) = True"
| "is_object v = False"

text \<open>
  An optional string parameter (\<^verbatim>\<open>path?: string\<close>) as \<^verbatim>\<open>if (path)\<close> and \<^verbatim>\<open>path ? a : b\<close>
  see it: the string when it is given and not empty.
\<close>

definition given :: "string option \<Rightarrow> string option" where
  "given p = (case p of None \<Rightarrow> None | Some s \<Rightarrow> if s = [] then None else Some s)"

section \<open>Token counter (core/tokenCount/index.ts)\<close>

text \<open>
  What a \<^verbatim>\<open>try\<close> block of the counter can catch: an instance of \<^verbatim>\<open>Error\<close> with its
  message, or any other thrown value.
\<close>

datatype thrown_value = ErrorInstance string | OtherValue "jv option"

text \<open>
  The tokenizer of the tiktoken library is external. \<open>Tiktoken\<close> is the \<^verbatim>\<open>encode\<close>
  method of a tokenizer, which returns the token ids or throws. \<^verbatim>\<open>get_encoding\<close> is a
  parameter of the model: for an encoding name it returns the tokenizer, or throws when
  the library does not know the name.
\<close>

type_synonym TiktokenEncoding = string
type_synonym Tiktoken = "string \<Rightarrow> thrown_value + nat list"

text \<open>
  The class has the one field \<^verbatim>\<open>encoding\<close>. \<open>encodingName\<close> keeps the constructor's
  argument beside it, so that theorems can say which encoding an instance was built for.
  The constructor throws what \<^verbatim>\<open>get_encoding\<close> throws.
\<close>

record TokenCounter =
  encodingName :: TiktokenEncoding
  encoding :: Tiktoken

definition new_TokenCounter ::
  "(TiktokenEncoding \<Rightarrow> thrown_value + Tiktoken) \<Rightarrow> TiktokenEncoding \<Rightarrow> thrown_value + TokenCounter" where
  "new_TokenCounter get_encoding name =
     (case get_encoding name of
        Inl error \<Rightarrow> Inl error
      | Inr tokenizer \<Rightarrow> Inr \<lparr>encodingName = name, encoding = tokenizer\<rparr>)"

datatype log_entry = Warn string | Info string

text \<open>
  \<open>countTokens\<close> returns what the method returns or throws, and the lines it sent to
  the logger.
\<close>

definition countTokens :: "TokenCounter \<Rightarrow> string \<Rightarrow> string option \<Rightarrow> (thrown_value + nat) \<times> log_entry list" where
  "countTokens this cont filePath =
     (case encoding this cont of
        Inr tokens \<Rightarrow> (Inr (length tokens), [])
      | Inl error \<Rightarrow>
          (let message = (case error of ErrorInstance m \<Rightarrow> m | OtherValue v \<Rightarrow> interpolate v)
           in case given filePath of
                Some p \<Rightarrow> (Inr 0, [Warn (''Failed to count tokens. path: '' @ p @ '', error: '' @ message)])
              | None \<Rightarrow> (Inr 0, [Warn (''Failed to count tokens. error: '' @ message)])))"

section \<open>Records of the metrics engine\<close>

text \<open>
  The file records that come from the file processor, the per-file metrics, and the task
  a counting worker receives (\<open>OutputMetricsTask\<close> of outputMetricsWorker.ts). Several
  share field names; the task's are the unqualified ones.
\<close>

record ProcessedFile =
  path :: string
  content :: string

record FileMetrics =
  path :: string
  charCount :: nat
  tokenCount :: nat

record OutputMetricsTask =
  content :: string
  encoding :: TiktokenEncoding
  path :: "string option"

section \<open>Counting worker (core/metrics/workers/outputMetricsWorker.ts)\<close>

text \<open>The module variable \<^verbatim>\<open>tokenCounter\<close> of one worker; \<open>None\<close> is \<^verbatim>\<open>null\<close>.\<close>

record worker_state =
  tokenCounter :: "TokenCounter option"

definition initial_worker :: worker_state where
  "initial_worker = \<lparr>tokenCounter = None\<rparr>"

text \<open>
  When the constructor throws, the assignment to \<^verbatim>\<open>tokenCounter\<close> does not happen and the
  variable stays \<^verbatim>\<open>null\<close>.
\<close>

definition getTokenCounter ::
  "(TiktokenEncoding \<Rightarrow> thrown_value + Tiktoken) \<Rightarrow> TiktokenEncoding \<Rightarrow> worker_state
     \<Rightarrow> (thrown_value + TokenCounter) \<times> worker_state" where
  "getTokenCounter get_encoding enc st =
     (case tokenCounter st of
        None \<Rightarrow> (case new_TokenCounter get_encoding enc of
                   Inl error \<Rightarrow> (Inl error, st)
                 | Inr c \<Rightarrow> (Inr c, st\<lparr>tokenCounter := Some c\<rparr>))
      | Some c \<Rightarrow> (Inr c, st))"

text \<open>
  The worker's default export: the task rejects with what was thrown, or fulfils with
  the count; the counter that produced the count is returned beside it. The worker's own
  log line reports a duration and is left out.
\<close>

definition worker ::
  "(TiktokenEncoding \<Rightarrow> thrown_value + Tiktoken) \<Rightarrow> OutputMetricsTask \<Rightarrow> worker_state
     \<Rightarrow> (thrown_value + nat \<times> TokenCounter) \<times> worker_state" where
  "worker get_encoding task st =
     (let (got, st') = getTokenCounter get_encoding (encoding task) st
      in case got of
           Inl error \<Rightarrow> (Inl error, st')
         | Inr counter \<Rightarrow>
             (case fst (countTokens counter (content task) (path task)) of
                Inl error \<Rightarrow> (Inl error, st')
              | Inr n \<Rightarrow> (Inr (n, counter), st')))"

text \<open>One worker serving a sequence of tasks, one after the other.\<close>

fun run_tasks ::
  "(TiktokenEncoding \<Rightarrow> thrown_value + Tiktoken) \<Rightarrow> OutputMetricsTask list \<Rightarrow> worker_state
     \<Rightarrow> (thrown_value + nat \<times> TokenCounter) list" where
  "run_tasks get_encoding [] st = []"
| "run_tasks get_encoding (task # tasks) st =
     (let (r, st') = worker get_encoding task st in r # run_tasks get_encoding tasks st')"

text \<open>
  A stand-in for the tiktoken library for concrete runs. It knows the six encoding names
  of the library and throws on any other; \<^verbatim>\<open>gpt2\<close> yields one token per character, the
  other encodings one token per fragment.
\<close>

definition fake_get_encoding :: "TiktokenEncoding \<Rightarrow> thrown_value + Tiktoken" where
  "fake_get_encoding name =
     (if name \<in> set [''gpt2'', ''r50k_base'', ''p50k_base'', ''p50k_edit'', ''cl100k_base'', ''o200k_base'']
      then Inr (\<lambda>s. Inr (if name = ''gpt2'' then map of_char s else [0]))
      else Inl (ErrorInstance ''Invalid encoding''))"

section \<open>Output token count (calculateOutputMetrics)\<close>

definition CHUNK_SIZE :: nat where
  "CHUNK_SIZE = 1000"

definition MIN_CONTENT_LENGTH_FOR_PARALLEL :: nat where
  "MIN_CONTENT_LENGTH_FOR_PARALLEL = 1000000"

text \<open>\<^verbatim>\<open>s.slice(i, j)\<close> for indices that are not negative.\<close>

definition slice :: "string \<Rightarrow> nat \<Rightarrow> nat \<Rightarrow> string" where
  "slice s i j = take (j - i) (drop i s)"

text \<open>
  The splitting loop \<^verbatim>\<open>for (let i = 0; i < content.length; i += chunkSize)\<close>. With
  \<open>chunkSize = 0\<close> it would not end, so it is a partial function.
\<close>

partial_function (option) split_loop :: "string \<Rightarrow> nat \<Rightarrow> nat \<Rightarrow> string list \<Rightarrow> string list option" where
  "split_loop cont chunkSize i chunks =
     (if i < length cont
      then split_loop cont chunkSize (i + chunkSize) (chunks @ [slice cont i (i + chunkSize)])
      else Some chunks)"

text \<open>
  \<^verbatim>\<open>Promise.all\<close>: the values in order when every promise fulfils, a rejection when one
  rejects. Which rejection wins among several depends on timing; the model takes the
  leftmost.
\<close>

fun promise_all :: "('e + 'a) list \<Rightarrow> 'e + 'a list" where
  "promise_all [] = Inr []"
| "promise_all (Inl e # rs) = Inl e"
| "promise_all (Inr v # rs) = (case promise_all rs of Inl e \<Rightarrow> Inl e | Inr vs \<Rightarrow> Inr (v # vs))"

text \<open>
  A run of \<open>calculateOutputMetrics\<close>: the arguments of its calls of
  \<^verbatim>\<open>deps.initTaskRunner\<close>, the tasks it handed to the runner, and how its promise settled.
\<close>

record 'e output_run =
  initTaskRunner_calls :: "nat list"
  runTask_calls :: "OutputMetricsTask list"
  settled :: "'e + nat"

text \<open>
  \<open>initTaskRunner\<close> is the injected dependency: given the pool size it returns the
  function that runs one task on the pool and fulfils with a count or rejects.
  \<^verbatim>\<open>Math.ceil(content.length / CHUNK_SIZE)\<close> is exact at the lengths a string can have and
  is written with integer division. The \<^verbatim>\<open>catch\<close> block logs and rethrows what it
  caught; the logger calls are left out.
\<close>

definition calculateOutputMetrics ::
  "(nat \<Rightarrow> OutputMetricsTask \<Rightarrow> 'e + nat) \<Rightarrow> string \<Rightarrow> TiktokenEncoding \<Rightarrow> string option
     \<Rightarrow> 'e output_run option" where
  "calculateOutputMetrics initTaskRunner cont enc pth =
     (let shouldRunInParallel = (length cont > MIN_CONTENT_LENGTH_FOR_PARALLEL);
          numOfTasks = (if shouldRunInParallel then CHUNK_SIZE else 1);
          runTask = initTaskRunner numOfTasks
      in if shouldRunInParallel
         then (let chunkSize = (length cont + CHUNK_SIZE - 1) div CHUNK_SIZE
               in case split_loop cont chunkSize 0 [] of
                    None \<Rightarrow> None
                  | Some chunks \<Rightarrow>
                      (let tasks = map (\<lambda>(index, chunk).
                                     \<lparr>content = chunk, encoding = enc,
                                      path = map_option (\<lambda>p. p @ ''-chunk-'' @ show_nat index) (given pth)\<rparr>)
                                   (enumerate 0 chunks);
                           chunkResults = promise_all (map runTask tasks)
                       in Some \<lparr>initTaskRunner_calls = [numOfTasks], runTask_calls = tasks,
                                settled = (case chunkResults of
                                             Inl error \<Rightarrow> Inl error
                                           | Inr counts \<Rightarrow> Inr (foldl (+) 0 counts))\<rparr>))
         else (let task = \<lparr>content = cont, encoding = enc, path = pth\<rparr>
               in Some \<lparr>initTaskRunner_calls = [numOfTasks], runTask_calls = [task],
                        settled = runTask task\<rparr>))"

section \<open>Metrics report (core/metrics/calculateMetrics.ts)\<close>

record CalculateMetricsResult =
  totalFiles :: nat
  totalCharacters :: nat
  totalTokens :: nat
  fileCharCounts :: "string \<rightharpoonup> nat"
  fileTokenCounts :: "string \<rightharpoonup> nat"

text \<open>The two settings of the merged configuration that the function reads.\<close>

record ConfigMerged =
  tokenCount_encoding :: TiktokenEncoding
  output_filePath :: "string option"

text \<open>
  Modelled from the spec: \<^verbatim>\<open>calculateAllFileMetrics\<close> (core/metrics/calculateAllFileMetrics)
  is imported by calculateMetrics.ts and is not among the sources. The spec describes a
  per-file character count and a per-file token count, one entry per processed file: the
  model yields, for each file record in order, its path, the length of its content and the
  token count that \<open>count\<close> gives for its content, and rejects when a count rejects.
\<close>

definition calculateAllFileMetrics ::
  "(TiktokenEncoding \<Rightarrow> string \<Rightarrow> 'e + nat) \<Rightarrow> ProcessedFile list \<Rightarrow> TiktokenEncoding
     \<Rightarrow> 'e + FileMetrics list" where
  "calculateAllFileMetrics count processedFiles enc =
     promise_all (map (\<lambda>file. case count enc (ProcessedFile.content file) of
                                 Inl error \<Rightarrow> Inl error
                               | Inr n \<Rightarrow> Inr \<lparr>FileMetrics.path = ProcessedFile.path file,
                                               charCount = length (ProcessedFile.content file),
                                               tokenCount = n\<rparr>)
                      processedFiles)"

text \<open>
  An assignment \<^verbatim>\<open>ob[key] = n\<close> to a plain object that holds numbers. Every key but
  one gets its own entry, and an entry that is there is overwritten. The key
  \<^verbatim>\<open>__proto__\<close> is the accessor that a plain object inherits: assigning a number to it
  changes nothing and creates no entry.
\<close>

definition assign :: "(string \<rightharpoonup> nat) \<Rightarrow> string \<Rightarrow> nat \<Rightarrow> (string \<rightharpoonup> nat)" where
  "assign ob key n = (if key = ''__proto__'' then ob else ob(key \<mapsto> n))"

text \<open>The loop that fills the two records of the report, both plain objects.\<close>

fun fill_counts ::
  "FileMetrics list \<Rightarrow> (string \<rightharpoonup> nat) \<times> (string \<rightharpoonup> nat) \<Rightarrow> (string \<rightharpoonup> nat) \<times> (string \<rightharpoonup> nat)" where
  "fill_counts [] acc = acc"
| "fill_counts (file # files) (chars, tokens) =
     fill_counts files (assign chars (FileMetrics.path file) (charCount file),
                        assign tokens (FileMetrics.path file) (tokenCount file))"

text \<open>
  Both dependencies are injected, as in the source, and each fulfils or rejects;
  \<^verbatim>\<open>Promise.all\<close> of the pair rejects when either does. The progress callback only
  reports and is left out.
\<close>

definition calculateMetrics ::
  "(ProcessedFile list \<Rightarrow> TiktokenEncoding \<Rightarrow> 'e + FileMetrics list)
     \<Rightarrow> (string \<Rightarrow> TiktokenEncoding \<Rightarrow> string option \<Rightarrow> 'e + nat)
     \<Rightarrow> ProcessedFile list \<Rightarrow> string \<Rightarrow> ConfigMerged \<Rightarrow> 'e + CalculateMetricsResult" where
  "calculateMetrics deps_calculateAllFileMetrics deps_calculateOutputMetrics processedFiles output config =
     (case deps_calculateAllFileMetrics processedFiles (tokenCount_encoding config) of
        Inl error \<Rightarrow> Inl error
      | Inr fileMetrics \<Rightarrow>
          (case deps_calculateOutputMetrics output (tokenCount_encoding config) (output_filePath config) of
             Inl error \<Rightarrow> Inl error
           | Inr outputTokens \<Rightarrow>
               (let (chars, tokens) = fill_counts fileMetrics (Map.empty, Map.empty)
                in Inr \<lparr>totalFiles = length processedFiles,
                         totalCharacters = length output,
                         totalTokens = outputTokens,
                         fileCharCounts = chars,
                         fileTokenCounts = tokens\<rparr>)))"

section \<open>Job client (CodecrawlApp)\<close>

text \<open>
  A response of the HTTP library: the status and the parsed body. The body has type
  \<^verbatim>\<open>any\<close>: it can be an object, but also \<^verbatim>\<open>null\<close>, a string, a number.
\<close>

record response =
  status :: nat
  data :: "jv option"

text \<open>
  The errors that reach a \<^verbatim>\<open>catch\<close> block of the client: \<open>CodecrawlError\<close> with its
  message, \<^verbatim>\<open>statusCode\<close> and \<^verbatim>\<open>details\<close>; the HTTP library's \<open>AxiosError\<close> with its
  message and, when the server answered, the response; the runtime's \<open>TypeError\<close>; any
  other \<^verbatim>\<open>Error\<close>.
\<close>

datatype thrown =
    CodecrawlError string "jv option" "jv option"
  | AxiosError string "response option"
  | TypeError string
  | OtherError string

fun err_message :: "thrown \<Rightarrow> string" where
  "err_message (CodecrawlError m c d) = m"
| "err_message (AxiosError m r) = m"
| "err_message (TypeError m) = m"
| "err_message (OtherError m) = m"

text \<open>\<^verbatim>\<open>error.response\<close>: only an \<open>AxiosError\<close> has the property.\<close>

fun err_response :: "thrown \<Rightarrow> response option" where
  "err_response (AxiosError m r) = r"
| "err_response e = None"

text \<open>Sequencing of steps that can throw: the first error ends the block.\<close>

definition and_then :: "thrown + 'a \<Rightarrow> ('a \<Rightarrow> thrown + 'b) \<Rightarrow> thrown + 'b" where
  "and_then step rest = (case step of Inl error \<Rightarrow> Inl error | Inr v \<Rightarrow> rest v)"

text \<open>
  The read \<^verbatim>\<open>x.k\<close>, which throws a \<open>TypeError\<close> on \<^verbatim>\<open>undefined\<close> and \<^verbatim>\<open>null\<close>. The
  messages are those of the V8 engine.
\<close>

definition cannot_read :: "string \<Rightarrow> string \<Rightarrow> thrown" where
  "cannot_read what k =
     TypeError (''Cannot read properties of '' @ what @ '' (reading '' @ [CHR 0x27] @ k @ [CHR 0x27] @ '')'')"

fun read :: "jv option \<Rightarrow> string \<Rightarrow> thrown + jv option" where
  "read None k = Inl (cannot_read ''undefined'' k)"
| "read (Some JNull) k = Inl (cannot_read ''null'' k)"
| "read v k = Inr (field v k)"

text \<open>
  The test \<^verbatim>\<open>k in x\<close>, which throws a \<open>TypeError\<close> unless \<open>x\<close> is an object or an
  array.
\<close>

definition js_in :: "string \<Rightarrow> jv option \<Rightarrow> thrown + bool" where
  "js_in k v =
     (if is_object v
      then Inr (case field v k of None \<Rightarrow> False | Some x \<Rightarrow> True)
      else Inl (TypeError (''Cannot use 'in' operator to search for '' @ [CHR 0x27] @ k @ [CHR 0x27]
                             @ '' in '' @ interpolate v)))"

text \<open>What reading \<^verbatim>\<open>.status\<close> of an \<^verbatim>\<open>undefined\<close> response throws.\<close>

definition undefined_status :: thrown where
  "undefined_status = cannot_read ''undefined'' ''status''"

text \<open>
  \<open>handleError\<close> has return type \<^verbatim>\<open>void\<close>; \<open>Inl\<close> is what it throws. \<^verbatim>\<open>JSON.stringify\<close>
  is the parameter \<open>stringify\<close>. The list of statuses is the source's, with 402 twice.
  The reads \<^verbatim>\<open>response.data.error\<close> and \<^verbatim>\<open>response.data.details\<close> throw on a body that
  is \<^verbatim>\<open>null\<close> or \<^verbatim>\<open>undefined\<close>; the third argument \<^verbatim>\<open>response?.data?.details\<close> does not.
\<close>

definition handleError :: "(jv \<Rightarrow> string) \<Rightarrow> response \<Rightarrow> string \<Rightarrow> thrown + unit" where
  "handleError stringify resp action =
     (if status resp \<in> set [400, 402, 402, 408, 409, 500]
      then and_then (read (data resp) ''error'') (\<lambda>data_error.
           and_then (read (data resp) ''details'') (\<lambda>data_details.
             (let errorMessage = (if truthy data_error then data_error
                                  else Some (JStr ''unknown error occured''));
                  details = (case data_details of
                               None \<Rightarrow> []
                             | Some d \<Rightarrow> if truthy (Some d) then ''- '' @ stringify d else [])
              in Inl (CodecrawlError
                       (''Failed to '' @ action @ ''. Status code: '' @ show_nat (status resp)
                          @ ''. Error: '' @ interpolate errorMessage @ details)
                       (Some (JNum (int (status resp))))
                       (field (data resp) ''details'')))))
      else Inl (CodecrawlError
                 (''Unexpected error occurred while '' @ action @ ''. Status code: ''
                    @ show_nat (status resp) @ ''.'')
                 (Some (JNum (int (status resp))))
                 None))"

text \<open>
  What the \<^verbatim>\<open>catch\<close> block of \<open>asyncGenerateLLMsText\<close> throws for the error it caught.
  Its test is \<^verbatim>\<open>error.response?.data?.error\<close>; without a response the other branch reads
  \<^verbatim>\<open>error.response.status\<close> and throws.
\<close>

definition async_catch :: "thrown \<Rightarrow> thrown" where
  "async_catch error =
     (case err_response error of
        None \<Rightarrow> undefined_status
      | Some r \<Rightarrow>
          if truthy (field (data r) ''error'')
          then CodecrawlError
                 (''Failed to start LLMs.txt generation. Status code: '' @ show_nat (status r)
                    @ ''. Error: '' @ interpolate (field (data r) ''error''))
                 (Some (JNum (int (status r)))) None
          else CodecrawlError
                 (''Unexpected error occurred while starting LLMs.txt generation. Status code: ''
                    @ show_nat (status r) @ ''.'')
                 (Some (JNum (int (status r)))) None)"

text \<open>
  \<open>asyncGenerateLLMsText\<close>, given how the POST request settled: with a response, or with
  the error the HTTP library threw.
\<close>

definition asyncGenerateLLMsText :: "(jv \<Rightarrow> string) \<Rightarrow> thrown + response \<Rightarrow> thrown + jv option" where
  "asyncGenerateLLMsText stringify posted =
     (case posted of
        Inl error \<Rightarrow> Inl (async_catch error)
      | Inr resp \<Rightarrow>
          if status resp = 200 then Inr (data resp)
          else (case handleError stringify resp ''start LLMs.txt generation'' of
                  Inl error \<Rightarrow> Inl (async_catch error)
                | Inr u \<Rightarrow> Inr (Some (JObj [''success'' \<mapsto> JBool False,
                                             ''error'' \<mapsto> JStr ''Internal Server Error'']))))"

text \<open>
  \<open>getRequest\<close> turns an \<open>AxiosError\<close> into its response, which is \<^verbatim>\<open>undefined\<close> when
  the server never answered, and rethrows anything else.
\<close>

definition getRequest :: "thrown + response \<Rightarrow> thrown + response option" where
  "getRequest got =
     (case got of
        Inr resp \<Rightarrow> Inr (Some resp)
      | Inl (AxiosError m r) \<Rightarrow> Inr r
      | Inl error \<Rightarrow> Inl error)"

text \<open>What the \<^verbatim>\<open>catch\<close> block of \<open>checkGenerateLLMsTextStatus\<close> throws.\<close>

definition check_catch :: "(jv \<Rightarrow> string) \<Rightarrow> thrown \<Rightarrow> thrown" where
  "check_catch stringify error =
     (case err_response error of
        None \<Rightarrow> CodecrawlError (err_message error) (Some (JNum 500)) None
      | Some r \<Rightarrow>
          if truthy (field (data r) ''error'')
          then CodecrawlError
                 (''Request failed with status code '' @ show_nat (status r) @ ''. Error: ''
                    @ interpolate (field (data r) ''error'') @ '' ''
                    @ (case field (data r) ''details'' of
                         None \<Rightarrow> []
                       | Some d \<Rightarrow> if truthy (Some d) then '' - '' @ stringify d else []))
                 (Some (JNum (int (status r)))) None
          else CodecrawlError (err_message error) (Some (JNum 500)) None)"

definition checkGenerateLLMsTextStatus :: "(jv \<Rightarrow> string) \<Rightarrow> thrown + response \<Rightarrow> thrown + jv option" where
  "checkGenerateLLMsTextStatus stringify got =
     (case getRequest got of
        Inl error \<Rightarrow> Inl (check_catch stringify error)
      | Inr None \<Rightarrow> Inl (check_catch stringify undefined_status)
      | Inr (Some resp) \<Rightarrow>
          if status resp = 200 then Inr (data resp)
          else if status resp = 404
          then Inl (check_catch stringify
                      (CodecrawlError ''LLMs.txt generation job not found'' (Some (JNum 404)) None))
          else (case handleError stringify resp ''check LLMs.txt generation status'' of
                  Inl error \<Rightarrow> Inl (check_catch stringify error)
                | Inr u \<Rightarrow> Inr (Some (JObj [''success'' \<mapsto> JBool False,
                                             ''error'' \<mapsto> JStr ''Internal server error.'']))))"

text \<open>
  What the client does to the outside, in order: a POST, a GET of a URL, a timer of so
  many milliseconds.
\<close>

datatype event = PostRequest string | GetRequest string | Timeout nat

record CodecrawlApp =
  apiKey :: string
  apiUrl :: string

text \<open>What the \<^verbatim>\<open>catch\<close> block of \<open>generateLLMsTxt\<close> throws.\<close>

definition generate_catch :: "thrown \<Rightarrow> thrown" where
  "generate_catch error =
     CodecrawlError (err_message error) (Some (JNum 500))
       (case err_response error of None \<Rightarrow> None | Some r \<Rightarrow> field (data r) ''details'')"

text \<open>
  The statements of \<open>generateLLMsTxt\<close> between the submission and the loop, for the
  value that \<open>asyncGenerateLLMsText\<close> returned: they throw, or return early (\<open>Inl\<close>), or
  go on to the loop with the job id (\<open>Inr\<close>).
\<close>

definition before_loop :: "jv option \<Rightarrow> thrown + (jv option + jv option)" where
  "before_loop resp =
     and_then (read resp ''success'') (\<lambda>success.
     and_then (if truthy success then Inr True else js_in ''error'' resp) (\<lambda>stop.
       if stop
       then and_then (js_in ''error'' resp) (\<lambda>has_error.
            and_then (if has_error then read resp ''error''
                      else Inr (Some (JStr ''unknown error''))) (\<lambda>error_text.
              Inr (Inl (Some (JObj ([''success'' \<mapsto> JBool False](''error'' := error_text)))))))
       else and_then (read resp ''id'') (\<lambda>id.
              if \<not> truthy id
              then Inl (CodecrawlError ''Failed to start LLMs.txt generation. No job ID returned''
                          (Some (JNum 500)) None)
              else Inr (Inr id))))"

text \<open>
  One pass through the body of \<^verbatim>\<open>while (true)\<close> after the poll returned
  \<open>generationStatus\<close>: it throws, or returns a value, or breaks, or sleeps and goes round
  again.
\<close>

datatype pass = Return "jv option" | Break | Continue

definition loop_pass :: "jv option \<Rightarrow> thrown + pass" where
  "loop_pass generationStatus =
     and_then (js_in ''error'' generationStatus) (\<lambda>has_error.
     and_then (if has_error
               then and_then (read generationStatus ''success'') (\<lambda>success. Inr (\<not> truthy success))
               else Inr False) (\<lambda>is_error_response.
       if is_error_response then Inr (Return generationStatus)
       else and_then (read generationStatus ''status'') (\<lambda>st.
              if st = Some (JStr ''completed'') then Inr (Return generationStatus)
              else if st = Some (JStr ''failed'')
              then and_then (read generationStatus ''error'') (\<lambda>error_text.
                   and_then (read generationStatus ''statusCode'') (\<lambda>code.
                     Inl (CodecrawlError
                            (''LLMs.txt generation failed. Status code: '' @ interpolate st
                               @ ''. Error: '' @ interpolate error_text)
                            code None)))
              else if st \<noteq> Some (JStr ''processing'') then Inr Break
              else Inr Continue)))"

text \<open>The value returned after the loop, from \<^verbatim>\<open>generationStatus?.status ?? 'unknown'\<close>.\<close>

definition after_loop :: "jv option \<Rightarrow> jv option" where
  "after_loop generationStatus =
     Some (JObj [''success'' \<mapsto> JBool False,
                 ''error'' \<mapsto> JStr (''LLMs.txt generation ended with unexpected status: ''
                    @ (case field generationStatus ''status'' of
                         None \<Rightarrow> ''unknown''
                       | Some JNull \<Rightarrow> ''unknown''
                       | Some v \<Rightarrow> js_String v))])"

text \<open>
  The polling loop of \<open>generateLLMsTxt\<close> with the return that follows it. The server is
  the function \<open>server\<close>: how the \<open>n\<close>-th GET of a URL settles. The loop has no bound, so
  it is a partial function: \<open>None\<close> is a run that polls for ever. A result is a thrown
  error or the value to return, with the events so far.
\<close>

partial_function (option) poll_loop ::
  "(jv \<Rightarrow> string) \<Rightarrow> (string \<Rightarrow> nat \<Rightarrow> thrown + response) \<Rightarrow> CodecrawlApp \<Rightarrow> jv option \<Rightarrow> nat
     \<Rightarrow> event list \<Rightarrow> ((thrown + jv option) \<times> event list) option" where
  "poll_loop stringify server this jobId n events =
     (let url = apiUrl this @ ''/v1/llmstxt/'' @ interpolate jobId;
          events1 = events @ [GetRequest url]
      in case checkGenerateLLMsTextStatus stringify (server url n) of
           Inl error \<Rightarrow> Some (Inl error, events1)
         | Inr generationStatus \<Rightarrow>
             (case loop_pass generationStatus of
                Inl error \<Rightarrow> Some (Inl error, events1)
              | Inr (Return v) \<Rightarrow> Some (Inr v, events1)
              | Inr Break \<Rightarrow> Some (Inr (after_loop generationStatus), events1)
              | Inr Continue \<Rightarrow>
                  poll_loop stringify server this jobId (n + 1) (events1 @ [Timeout 2000])))"

text \<open>
  \<open>generateLLMsTxt\<close>, given how the POST settled and the server's answers to the polls.
  The result is what the method throws or returns, and the events in order. Everything
  thrown inside goes through its \<^verbatim>\<open>catch\<close> block.
\<close>

definition generateLLMsTxt ::
  "(jv \<Rightarrow> string) \<Rightarrow> thrown + response \<Rightarrow> (string \<Rightarrow> nat \<Rightarrow> thrown + response) \<Rightarrow> CodecrawlApp
     \<Rightarrow> ((thrown + jv option) \<times> event list) option" where
  "generateLLMsTxt stringify posted server this =
     (let events0 = [PostRequest (apiUrl this @ ''/v1/llmstxt'')]
      in case asyncGenerateLLMsText stringify posted of
           Inl error \<Rightarrow> Some (Inl (generate_catch error), events0)
         | Inr resp \<Rightarrow>
             (case before_loop resp of
                Inl error \<Rightarrow> Some (Inl (generate_catch error), events0)
              | Inr (Inl early) \<Rightarrow> Some (Inr early, events0)
              | Inr (Inr jobId) \<Rightarrow>
                  (case poll_loop stringify server this jobId 0 events0 of
                     None \<Rightarrow> None
                   | Some (Inl error, events) \<Rightarrow> Some (Inl (generate_catch error), events)
                   | Some (Inr result, events) \<Rightarrow> Some (Inr result, events))))"

section \<open>The token counter absorbs tokenizer failures\<close>

lemma sublist_in_middle: "sublist x (a @ x @ b)"
  by (rule sublist_appendI)

lemma sublist_at_end: "sublist x (a @ x)"
  by (rule sublist_append_leftI)

lemma sublist_at_end3: "sublist x (a @ b @ c @ x)"
  using sublist_append_leftI [of x "a @ b @ c"] by simp

text \<open>
  Claim C5. For every fragment, optional label and counter (hence every bound encoding),
  \<open>countTokens\<close> returns a natural number and throws nothing. When the tokenizer
  succeeds the count is the number of tokens and nothing is logged. When the tokenizer
  throws, the count is 0 and exactly one warning is logged, which contains the failure's
  message and, when a label is given, the label.
\<close>

theorem countTokens_absorbs_failure:
  "(\<exists>n. fst (countTokens this cont filePath) = Inr n) \<and>
   (\<forall>tokens. TokenCounter.encoding this cont = Inr tokens \<longrightarrow>
      countTokens this cont filePath = (Inr (length tokens), [])) \<and>
   (\<forall>error. TokenCounter.encoding this cont = Inl error \<longrightarrow>
      fst (countTokens this cont filePath) = Inr 0 \<and>
      (\<exists>line. snd (countTokens this cont filePath) = [Warn line] \<and>
         sublist (case error of ErrorInstance m \<Rightarrow> m | OtherValue v \<Rightarrow> interpolate v) line \<and>
         (\<forall>p. given filePath = Some p \<longrightarrow> sublist p line)))"
proof (cases "TokenCounter.encoding this cont")
  case (Inr tokens)
  then show ?thesis by (simp add: countTokens_def)
next
  case (Inl error)
  show ?thesis
  proof (cases "given filePath")
    case None
    with Inl show ?thesis
      by (simp add: countTokens_def Let_def sublist_at_end del: append.simps)
  next
    case (Some p)
    with Inl show ?thesis
      by (simp add: countTokens_def Let_def sublist_in_middle sublist_at_end3 del: append.simps)
  qed
qed

text \<open>
  A tokenizer that always throws, on a labelled fragment: the count is 0 and the warning
  names the label.
\<close>

theorem countTokens_absorbs_failure_witness:
  "countTokens \<lparr>encodingName = ''cl100k_base'', encoding = (\<lambda>s. Inl (ErrorInstance ''bad input''))\<rparr>
     ''abc'' (Some ''src/a.ts'')
   = (Inr 0, [Warn ''Failed to count tokens. path: src/a.ts, error: bad input''])"
  using countTokens_absorbs_failure
    [of "\<lparr>encodingName = ''cl100k_base'', encoding = (\<lambda>s. Inl (ErrorInstance ''bad input''))\<rparr>"
        "''abc''" "Some ''src/a.ts''"]
  by (simp add: countTokens_def given_def)

section \<open>The worker's counter\<close>

lemma countTokens_fulfils: "\<exists>n. fst (countTokens c x p) = Inr n"
  by (cases "TokenCounter.encoding c x"; cases "given p") (simp_all add: countTokens_def Let_def)

lemma run_tasks_counter_set:
  "run_tasks g ts \<lparr>tokenCounter = Some c\<rparr>
   = map (\<lambda>u. case fst (countTokens c (content u) (path u)) of
                 Inl error \<Rightarrow> Inl error
               | Inr n \<Rightarrow> Inr (n, c)) ts"
  by (induction ts) (simp_all add: worker_def getTokenCounter_def split: sum.splits)

lemma run_tasks_rejected:
  assumes "\<forall>u \<in> set pre. \<exists>e. g (encoding u) = Inl e"
  shows "run_tasks g (pre @ rest) initial_worker
         = map (\<lambda>u. Inl (projl (g (encoding u)))) pre @ run_tasks g rest initial_worker"
  using assms
  by (induction pre)
     (auto simp: worker_def getTokenCounter_def new_TokenCounter_def initial_worker_def)

text \<open>
  Claim C8, as the code has it. A worker has one counter, not one per encoding. A task
  whose encoding the tokenizer library rejects while no counter exists fails and leaves
  no counter. The first task whose encoding the library accepts creates the counter,
  bound to that encoding, and this instance produces the count of that task and of every
  later task, whatever encoding the later task asks for. When every task of a sequence
  asks for the same encoding and the library accepts it, each count is produced by an
  instance bound to its task's encoding.
\<close>

theorem worker_counter_is_first_accepted:
  "((\<forall>u \<in> set pre. \<exists>e. g (encoding u) = Inl e) \<and> g (encoding t) = Inr tokenizer \<longrightarrow>
      run_tasks g (pre @ t # post) initial_worker
        = map (\<lambda>u. Inl (projl (g (encoding u)))) pre
          @ map (\<lambda>u. case fst (countTokens \<lparr>encodingName = encoding t, encoding = tokenizer\<rparr>
                                   (content u) (path u)) of
                        Inl error \<Rightarrow> Inl error
                      | Inr n \<Rightarrow> Inr (n, \<lparr>encodingName = encoding t, encoding = tokenizer\<rparr>))
              (t # post))
   \<and> ((\<forall>u \<in> set (t # post). encoding u = encoding t) \<and> g (encoding t) = Inr tokenizer \<longrightarrow>
        (\<forall>i < length (t # post). \<exists>n c.
           run_tasks g (t # post) initial_worker ! i = Inr (n, c)
           \<and> encodingName c = encoding ((t # post) ! i)
           \<and> TokenCounter.encoding c = tokenizer))"
proof (intro conjI impI)
  assume a: "(\<forall>u \<in> set pre. \<exists>e. g (encoding u) = Inl e) \<and> g (encoding t) = Inr tokenizer"
  let ?c = "\<lparr>encodingName = encoding t, encoding = tokenizer\<rparr>"
  have first: "run_tasks g (t # post) initial_worker
        = map (\<lambda>u. case fst (countTokens ?c (content u) (path u)) of
                        Inl error \<Rightarrow> Inl error
                      | Inr n \<Rightarrow> Inr (n, ?c)) (t # post)"
    using a
    by (simp add: worker_def getTokenCounter_def new_TokenCounter_def initial_worker_def
          run_tasks_counter_set split: sum.splits)
  from a have "\<forall>u \<in> set pre. \<exists>e. g (encoding u) = Inl e" by simp
  then show "run_tasks g (pre @ t # post) initial_worker
        = map (\<lambda>u. Inl (projl (g (encoding u)))) pre
          @ map (\<lambda>u. case fst (countTokens ?c (content u) (path u)) of
                        Inl error \<Rightarrow> Inl error
                      | Inr n \<Rightarrow> Inr (n, ?c)) (t # post)"
    by (simp only: run_tasks_rejected first)
next
  assume b: "(\<forall>u \<in> set (t # post). encoding u = encoding t) \<and> g (encoding t) = Inr tokenizer"
  let ?c = "\<lparr>encodingName = encoding t, encoding = tokenizer\<rparr>"
  have first: "run_tasks g (t # post) initial_worker
        = map (\<lambda>u. case fst (countTokens ?c (content u) (path u)) of
                        Inl error \<Rightarrow> Inl error
                      | Inr n \<Rightarrow> Inr (n, ?c)) (t # post)"
    using b
    by (simp add: worker_def getTokenCounter_def new_TokenCounter_def initial_worker_def
          run_tasks_counter_set split: sum.splits)
  show "\<forall>i < length (t # post). \<exists>n c.
           run_tasks g (t # post) initial_worker ! i = Inr (n, c)
           \<and> encodingName c = encoding ((t # post) ! i)
           \<and> TokenCounter.encoding c = tokenizer"
  proof (intro allI impI)
    fix i assume i: "i < length (t # post)"
    then have "(t # post) ! i \<in> set (t # post)" by (rule nth_mem)
    with b have enc: "encoding ((t # post) ! i) = encoding t" by blast
    obtain n where "fst (countTokens ?c (content ((t # post) ! i)) (path ((t # post) ! i))) = Inr n"
      using countTokens_fulfils by blast
    then have "run_tasks g (t # post) initial_worker ! i = Inr (n, ?c)"
      using i by (simp only: first nth_map) simp
    with enc show "\<exists>n c. run_tasks g (t # post) initial_worker ! i = Inr (n, c)
           \<and> encodingName c = encoding ((t # post) ! i)
           \<and> TokenCounter.encoding c = tokenizer"
      by auto
  qed
qed

text \<open>
  A task with an encoding the library does not know, then two tasks for \<^verbatim>\<open>gpt2\<close>: the
  first fails, the other two are counted by the \<^verbatim>\<open>gpt2\<close> instance.
\<close>

theorem worker_counter_is_first_accepted_witness:
  "run_tasks fake_get_encoding
     [\<lparr>content = ''ab'', encoding = ''nope'', path = None\<rparr>,
      \<lparr>content = ''ab'', encoding = ''gpt2'', path = None\<rparr>,
      \<lparr>content = ''cde'', encoding = ''gpt2'', path = Some ''out.txt''\<rparr>] initial_worker
   = [Inl (ErrorInstance ''Invalid encoding''),
      Inr (2, \<lparr>encodingName = ''gpt2'', encoding = (\<lambda>s. Inr (map of_char s))\<rparr>),
      Inr (3, \<lparr>encodingName = ''gpt2'', encoding = (\<lambda>s. Inr (map of_char s))\<rparr>)]"
  using worker_counter_is_first_accepted
    [of "[\<lparr>content = ''ab'', encoding = ''nope'', path = None\<rparr>]" fake_get_encoding
        "\<lparr>content = ''ab'', encoding = ''gpt2'', path = None\<rparr>"
        "\<lambda>s. Inr (map of_char s)"
        "[\<lparr>content = ''cde'', encoding = ''gpt2'', path = Some ''out.txt''\<rparr>]"]
  by (simp add: fake_get_encoding_def countTokens_def)

text \<open>
  Claim C8 as stated fails when a worker sees two encodings. The second task asks for
  \<^verbatim>\<open>gpt2\<close>; it is counted by the instance bound to \<^verbatim>\<open>o200k_base\<close>, which gives 1 where a
  \<^verbatim>\<open>gpt2\<close> counter gives 2.
\<close>

theorem worker_other_encoding_counterexample:
  "run_tasks fake_get_encoding
     [\<lparr>content = ''ab'', encoding = ''o200k_base'', path = None\<rparr>,
      \<lparr>content = ''ab'', encoding = ''gpt2'', path = None\<rparr>] initial_worker
   = [Inr (1, \<lparr>encodingName = ''o200k_base'', encoding = (\<lambda>s. Inr [0])\<rparr>),
      Inr (1, \<lparr>encodingName = ''o200k_base'', encoding = (\<lambda>s. Inr [0])\<rparr>)]
   \<and> new_TokenCounter fake_get_encoding ''gpt2''
       = Inr \<lparr>encodingName = ''gpt2'', encoding = (\<lambda>s. Inr (map of_char s))\<rparr>
   \<and> fst (countTokens \<lparr>encodingName = ''gpt2'', encoding = (\<lambda>s. Inr (map of_char s))\<rparr> ''ab'' None)
       = Inr 2"
  by (simp add: worker_def getTokenCounter_def initial_worker_def Let_def countTokens_def
        new_TokenCounter_def fake_get_encoding_def)

section \<open>Small content: one task on the runner\<close>

text \<open>
  Claim C2, as the code has it. For content of at most 1,000,000 characters the function
  asks \<^verbatim>\<open>deps.initTaskRunner\<close> for a runner of one task and hands it a single task that
  carries the whole content, the encoding and the label unchanged; the count is whatever
  that task settles with. There is no chunking, and the runner (by default the worker
  pool) is used all the same.
\<close>

theorem small_content_single_task:
  "length cont \<le> MIN_CONTENT_LENGTH_FOR_PARALLEL \<Longrightarrow>
   calculateOutputMetrics initTaskRunner cont enc pth
     = Some \<lparr>initTaskRunner_calls = [1],
             runTask_calls = [\<lparr>content = cont, encoding = enc, path = pth\<rparr>],
             settled = initTaskRunner 1 \<lparr>content = cont, encoding = enc, path = pth\<rparr>\<rparr>"
  by (simp add: calculateOutputMetrics_def Let_def)

text \<open>Three characters, with a runner that counts characters.\<close>

theorem small_content_single_task_witness:
  "calculateOutputMetrics (\<lambda>n task. (Inr (length (content task)) :: unit + nat)) ''abc'' ''gpt2'' None
     = Some \<lparr>initTaskRunner_calls = [1],
             runTask_calls = [\<lparr>content = ''abc'', encoding = ''gpt2'', path = None\<rparr>],
             settled = Inr 3\<rparr>"
  using small_content_single_task
    [of "''abc''" "\<lambda>n task. (Inr (length (content task)) :: unit + nat)" "''gpt2''" None]
  by (simp add: MIN_CONTENT_LENGTH_FOR_PARALLEL_def)

text \<open>
  Claim C2 as stated fails: on three characters, below the threshold, the runner is
  initialised (with size 1) and a task is submitted to it.
\<close>

theorem small_content_uses_pool_counterexample:
  "length ''abc'' \<le> MIN_CONTENT_LENGTH_FOR_PARALLEL
   \<and> map_option initTaskRunner_calls
        (calculateOutputMetrics (\<lambda>n task. (Inr 7 :: unit + nat)) ''abc'' ''gpt2'' None) = Some [1]
   \<and> map_option runTask_calls
        (calculateOutputMetrics (\<lambda>n task. (Inr 7 :: unit + nat)) ''abc'' ''gpt2'' None)
        = Some [\<lparr>content = ''abc'', encoding = ''gpt2'', path = None\<rparr>]"
  by (simp add: calculateOutputMetrics_def Let_def MIN_CONTENT_LENGTH_FOR_PARALLEL_def)

section \<open>Large content: the split into chunks\<close>

lemma ceil_div_less_iff:
  assumes "0 < cs"
  shows "k < (n + cs - 1) div cs \<longleftrightarrow> k * cs < (n::nat)"
proof -
  have "k < (n + cs - 1) div cs \<longleftrightarrow> Suc k \<le> (n + cs - 1) div cs" by auto
  also have "\<dots> \<longleftrightarrow> Suc k * cs \<le> n + cs - 1"
    using assms by (simp add: less_eq_div_iff_mult_less_eq)
  also have "\<dots> \<longleftrightarrow> k * cs < n" using assms by auto
  finally show ?thesis .
qed

lemma split_loop_from:
  assumes "0 < cs"
  shows "split_loop cont cs (k * cs) acc
         = Some (acc @ map (\<lambda>j. slice cont (j * cs) (j * cs + cs)) [k ..< (length cont + cs - 1) div cs])"
proof (induction "(length cont + cs - 1) div cs - k" arbitrary: k acc)
  case 0
  then have "\<not> k < (length cont + cs - 1) div cs" by simp
  then have "\<not> k * cs < length cont" using ceil_div_less_iff [OF assms] by simp
  then show ?case using 0 by (subst split_loop.simps) simp
next
  case (Suc d)
  then have lt: "k < (length cont + cs - 1) div cs" by simp
  then have "k * cs < length cont" using ceil_div_less_iff [OF assms] by simp
  moreover have "d = (length cont + cs - 1) div cs - Suc k" using Suc.hyps(2) by simp
  then have "split_loop cont cs (Suc k * cs) (acc @ [slice cont (k * cs) (k * cs + cs)])
      = Some ((acc @ [slice cont (k * cs) (k * cs + cs)])
              @ map (\<lambda>j. slice cont (j * cs) (j * cs + cs)) [Suc k ..< (length cont + cs - 1) div cs])"
    by (rule Suc.hyps(1))
  ultimately show ?case
    using lt by (subst split_loop.simps) (simp add: upt_conv_Cons add.commute)
qed

lemma concat_slices:
  "concat (map (\<lambda>j. slice xs (j * cs) (j * cs + cs)) [0 ..< n]) = take (n * cs) xs"
proof (induction n)
  case 0
  show ?case by simp
next
  case (Suc n)
  have "take (n * cs) xs @ take cs (drop (n * cs) xs) = take (n * cs + cs) xs"
    by (simp add: take_add)
  with Suc show ?case by (simp add: slice_def add.commute)
qed

lemma chunk_count:
  assumes "MIN_CONTENT_LENGTH_FOR_PARALLEL < n"
  shows "(n + ((n + CHUNK_SIZE - 1) div CHUNK_SIZE) - 1) div ((n + CHUNK_SIZE - 1) div CHUNK_SIZE) = CHUNK_SIZE"
proof -
  define cs where "cs = (n + 999) div 1000"
  have big: "1000000 < n" using assms by (simp add: MIN_CONTENT_LENGTH_FOR_PARALLEL_def)
  have lo: "1000 * cs \<le> n + 999"
    unfolding cs_def by (rule times_div_less_eq_dividend)
  have hi: "n + 999 < 1000 + 1000 * cs"
    unfolding cs_def by (rule dividend_less_times_div) simp
  have cs_big: "1000 \<le> cs" using big hi by linarith
  have "cs * 1000 \<le> n + cs - 1" using lo cs_big by linarith
  moreover have "n + cs - 1 < cs * Suc 1000" using hi cs_big by simp
  ultimately have "(n + cs - 1) div cs = 1000" by (rule div_nat_eqI)
  moreover have "(n + CHUNK_SIZE - 1) div CHUNK_SIZE = cs"
    by (simp add: cs_def CHUNK_SIZE_def)
  ultimately show ?thesis by (simp only: CHUNK_SIZE_def)
qed

lemma chunk_size_pos:
  assumes "MIN_CONTENT_LENGTH_FOR_PARALLEL < n"
  shows "0 < (n + CHUNK_SIZE - 1) div CHUNK_SIZE"
proof -
  have "CHUNK_SIZE \<le> n + CHUNK_SIZE - 1"
    using assms by (simp add: MIN_CONTENT_LENGTH_FOR_PARALLEL_def CHUNK_SIZE_def)
  then show ?thesis
    by (simp add: div_greater_zero_iff CHUNK_SIZE_def)
qed

lemma map_enumerate_upt:
  "map f (enumerate 0 (map g [0 ..< n])) = map (\<lambda>i. f (i, g i)) [0 ..< n]"
  by (rule nth_equalityI) (simp_all add: nth_enumerate_eq)

lemma foldl_plus_sum_list: "foldl (+) a xs = a + sum_list (xs :: nat list)"
  by (induction xs arbitrary: a) simp_all

text \<open>The run on the parallel path, written out.\<close>

lemma parallel_run:
  assumes "MIN_CONTENT_LENGTH_FOR_PARALLEL < length cont"
  shows "calculateOutputMetrics initTaskRunner cont enc pth
    = Some \<lparr>initTaskRunner_calls = [CHUNK_SIZE],
            runTask_calls =
              map (\<lambda>i. \<lparr>content = slice cont (i * ((length cont + CHUNK_SIZE - 1) div CHUNK_SIZE))
                                     (i * ((length cont + CHUNK_SIZE - 1) div CHUNK_SIZE)
                                        + (length cont + CHUNK_SIZE - 1) div CHUNK_SIZE),
                         encoding = enc,
                         path = map_option (\<lambda>p. p @ ''-chunk-'' @ show_nat i) (given pth)\<rparr>)
                  [0 ..< CHUNK_SIZE],
            settled =
              (case promise_all (map (initTaskRunner CHUNK_SIZE)
                  (map (\<lambda>i. \<lparr>content = slice cont (i * ((length cont + CHUNK_SIZE - 1) div CHUNK_SIZE))
                                     (i * ((length cont + CHUNK_SIZE - 1) div CHUNK_SIZE)
                                        + (length cont + CHUNK_SIZE - 1) div CHUNK_SIZE),
                         encoding = enc,
                         path = map_option (\<lambda>p. p @ ''-chunk-'' @ show_nat i) (given pth)\<rparr>)
                  [0 ..< CHUNK_SIZE])) of
                 Inl error \<Rightarrow> Inl error
               | Inr counts \<Rightarrow> Inr (sum_list counts))\<rparr>"
proof -
  define cs where "cs = (length cont + CHUNK_SIZE - 1) div CHUNK_SIZE"
  have pos: "0 < cs" unfolding cs_def by (rule chunk_size_pos [OF assms])
  have n: "(length cont + cs - 1) div cs = CHUNK_SIZE"
    unfolding cs_def by (rule chunk_count [OF assms])
  have "split_loop cont cs (0 * cs) [] = Some ([] @ map (\<lambda>j. slice cont (j * cs) (j * cs + cs)) [0 ..< CHUNK_SIZE])"
    using split_loop_from [OF pos, of cont 0 "[]"] n by simp
  then have loop: "split_loop cont cs 0 [] = Some (map (\<lambda>j. slice cont (j * cs) (j * cs + cs)) [0 ..< CHUNK_SIZE])"
    by simp
  show ?thesis
    unfolding calculateOutputMetrics_def Let_def cs_def [symmetric]
    using assms by (simp add: loop map_enumerate_upt foldl_plus_sum_list cong: sum.case_cong)
qed

lemma parallel_run_whole:
  assumes "MIN_CONTENT_LENGTH_FOR_PARALLEL < length cont"
  shows "\<exists>r. calculateOutputMetrics initTaskRunner cont enc pth = Some r \<and>
           concat (map content (runTask_calls r)) = cont"
proof -
  define cs where "cs = (length cont + CHUNK_SIZE - 1) div CHUNK_SIZE"
  have pos: "0 < cs" unfolding cs_def by (rule chunk_size_pos [OF assms])
  have n: "(length cont + cs - 1) div cs = CHUNK_SIZE"
    unfolding cs_def by (rule chunk_count [OF assms])
  have covers: "length cont \<le> CHUNK_SIZE * cs"
    using ceil_div_less_iff [OF pos, of CHUNK_SIZE "length cont"] n by simp
  obtain r where run: "calculateOutputMetrics initTaskRunner cont enc pth = Some r"
    and "map content (runTask_calls r)
          = map (\<lambda>j. slice cont (j * cs) (j * cs + cs)) [0 ..< CHUNK_SIZE]"
    using parallel_run [OF assms, of initTaskRunner enc pth] by (simp add: cs_def comp_def)
  then have "concat (map content (runTask_calls r)) = take (CHUNK_SIZE * cs) cont"
    by (simp only: concat_slices)
  with covers run show ?thesis by simp
qed

text \<open>
  Claim C3. For content longer than the threshold the function submits exactly
  \<open>CHUNK_SIZE = 1000\<close> tasks. Task \<open>i\<close> carries the slice of the content from
  \<open>i * chunkSize\<close> to \<open>i * chunkSize + chunkSize\<close>, where \<open>chunkSize\<close> is the length
  divided by 1000 and rounded up, so the chunks are contiguous and do not overlap; their
  concatenation in order is the content; all but the last have length \<open>chunkSize\<close>, and
  the last is not empty and not longer. Each task has the encoding, and its label is the
  original label followed by \<^verbatim>\<open>-chunk-\<close> and the index (no label when none was given).
\<close>

theorem parallel_split:
  assumes "MIN_CONTENT_LENGTH_FOR_PARALLEL < length cont"
  shows "\<exists>r. calculateOutputMetrics initTaskRunner cont enc pth = Some r \<and>
           length (runTask_calls r) = CHUNK_SIZE \<and>
           concat (map content (runTask_calls r)) = cont \<and>
           (\<forall>i < CHUNK_SIZE.
              runTask_calls r ! i
                = \<lparr>content = slice cont (i * ((length cont + CHUNK_SIZE - 1) div CHUNK_SIZE))
                                  (i * ((length cont + CHUNK_SIZE - 1) div CHUNK_SIZE)
                                     + (length cont + CHUNK_SIZE - 1) div CHUNK_SIZE),
                   encoding = enc,
                   path = map_option (\<lambda>p. p @ ''-chunk-'' @ show_nat i) (given pth)\<rparr>) \<and>
           (\<forall>i < CHUNK_SIZE - 1.
              length (content (runTask_calls r ! i)) = (length cont + CHUNK_SIZE - 1) div CHUNK_SIZE) \<and>
           0 < length (content (runTask_calls r ! (CHUNK_SIZE - 1))) \<and>
           length (content (runTask_calls r ! (CHUNK_SIZE - 1)))
             \<le> (length cont + CHUNK_SIZE - 1) div CHUNK_SIZE"
proof -
  define cs where "cs = (length cont + CHUNK_SIZE - 1) div CHUNK_SIZE"
  define task where "task = (\<lambda>i. \<lparr>content = slice cont (i * cs) (i * cs + cs), encoding = enc,
                                  path = map_option (\<lambda>p. p @ ''-chunk-'' @ show_nat i) (given pth)\<rparr>)"
  obtain r where run: "calculateOutputMetrics initTaskRunner cont enc pth = Some r"
    and calls: "runTask_calls r = map task [0 ..< CHUNK_SIZE]"
    using parallel_run [OF assms, of initTaskRunner enc pth] by (simp add: cs_def task_def)
  have pos: "0 < cs" unfolding cs_def by (rule chunk_size_pos [OF assms])
  have n: "(length cont + cs - 1) div cs = CHUNK_SIZE"
    unfolding cs_def by (rule chunk_count [OF assms])
  have k: "0 < CHUNK_SIZE" by (simp add: CHUNK_SIZE_def)
  have before_last: "(CHUNK_SIZE - 1) * cs < length cont"
    using ceil_div_less_iff [OF pos, of "CHUNK_SIZE - 1" "length cont"] n k by simp
  have whole: "concat (map content (runTask_calls r)) = cont"
    using parallel_run_whole [OF assms, of initTaskRunner enc pth] run by auto
  have nth: "runTask_calls r ! i = task i" if "i < CHUNK_SIZE" for i
    using that calls by simp
  have full: "length (content (runTask_calls r ! i)) = cs" if "i < CHUNK_SIZE - 1" for i
  proof -
    have "Suc i \<le> CHUNK_SIZE - 1" using that by simp
    then have "Suc i * cs \<le> (CHUNK_SIZE - 1) * cs" by (rule mult_le_mono1)
    then have "i * cs + cs < length cont" using before_last by simp
    moreover have "runTask_calls r ! i = task i" using that by (simp add: nth)
    ultimately show ?thesis by (simp add: task_def slice_def)
  qed
  have lastc: "runTask_calls r ! (CHUNK_SIZE - 1) = task (CHUNK_SIZE - 1)"
    using k by (simp add: nth)
  have last_len: "length (content (task (CHUNK_SIZE - 1)))
                   = min (length cont - (CHUNK_SIZE - 1) * cs) cs"
    by (simp add: task_def slice_def)
  have last_pos: "0 < length (content (runTask_calls r ! (CHUNK_SIZE - 1)))"
    unfolding lastc last_len using before_last pos by simp
  have last_le: "length (content (runTask_calls r ! (CHUNK_SIZE - 1))) \<le> cs"
    unfolding lastc last_len by simp
  show ?thesis
    using run calls whole nth full last_pos last_le
    unfolding cs_def [symmetric] task_def by simp
qed

text \<open>
  1,000,001 characters: 1000 chunks, the first of 1001 characters, the last of 2.
\<close>

theorem parallel_split_witness:
  "\<exists>r. calculateOutputMetrics (\<lambda>n task. (Inr 1 :: unit + nat)) (replicate 1000001 CHR ''a'') ''gpt2'' (Some ''out.md'')
           = Some r \<and>
        length (runTask_calls r) = 1000 \<and>
        runTask_calls r ! 0 = \<lparr>content = replicate 1001 CHR ''a'', encoding = ''gpt2'', path = Some ''out.md-chunk-0''\<rparr> \<and>
        runTask_calls r ! 999 = \<lparr>content = ''aa'', encoding = ''gpt2'', path = Some ''out.md-chunk-999''\<rparr>"
proof -
  have big: "MIN_CONTENT_LENGTH_FOR_PARALLEL < length (replicate 1000001 CHR ''a'')"
    by (simp add: MIN_CONTENT_LENGTH_FOR_PARALLEL_def)
  have s999: "show_nat 999 = ''999''" by (simp add: show_nat.simps digit_char_def)
  have s0: "show_nat 0 = ''0''" by (simp add: show_nat.simps digit_char_def)
  have two: "replicate 2 CHR ''a'' = ''aa''" by (simp add: numeral_2_eq_2)
  show ?thesis
    using parallel_split [OF big, of "\<lambda>n task. (Inr 1 :: unit + nat)" "''gpt2''" "Some ''out.md''"]
    by (auto simp: CHUNK_SIZE_def slice_def given_def s999 s0 two)
qed

section \<open>Large content: the sum of the chunk counts\<close>

lemma promise_all_fulfilled: "promise_all (map Inr vs) = Inr vs"
  by (induction vs) simp_all

lemma promise_all_Inr_D: "promise_all rs = Inr vs \<Longrightarrow> rs = map Inr vs"
proof (induction rs arbitrary: vs)
  case Nil
  then show ?case by simp
next
  case (Cons r rs)
  show ?case
  proof (cases r)
    case (Inl e)
    with Cons.prems show ?thesis by simp
  next
    case (Inr v)
    with Cons.prems obtain ws where "promise_all rs = Inr ws" and "vs = v # ws"
      by (auto split: sum.splits)
    with Cons.IH [of ws] Inr show ?thesis by simp
  qed
qed

lemma promise_all_Inl_mem: "promise_all rs = Inl e \<Longrightarrow> Inl e \<in> set rs"
proof (induction rs)
  case Nil
  then show ?case by simp
next
  case (Cons r rs)
  then show ?case by (cases r) (auto split: sum.splits)
qed

lemma promise_all_rejects: "Inl e \<in> set rs \<Longrightarrow> \<exists>e'. promise_all rs = Inl e'"
proof (induction rs)
  case Nil
  then show ?case by simp
next
  case (Cons r rs)
  then show ?case by (cases r) (auto split: sum.splits)
qed

text \<open>
  Claim C4. On the parallel path all 1000 tasks are handed to the runner of size 1000.
  When every task fulfils, the result is the sum of their counts. When some task
  rejects, the result is the rejection of one of the tasks, and no sum is produced.
\<close>

theorem parallel_sum:
  assumes "MIN_CONTENT_LENGTH_FOR_PARALLEL < length cont"
  shows "\<exists>r. calculateOutputMetrics initTaskRunner cont enc pth = Some r \<and>
           initTaskRunner_calls r = [CHUNK_SIZE] \<and>
           length (runTask_calls r) = CHUNK_SIZE \<and>
           (\<forall>counts. map (initTaskRunner CHUNK_SIZE) (runTask_calls r) = map Inr counts \<longrightarrow>
              settled r = Inr (sum_list counts)) \<and>
           (\<forall>e. Inl e \<in> set (map (initTaskRunner CHUNK_SIZE) (runTask_calls r)) \<longrightarrow>
              (\<exists>e'. settled r = Inl e' \<and>
                    Inl e' \<in> set (map (initTaskRunner CHUNK_SIZE) (runTask_calls r))))"
proof -
  obtain r where run: "calculateOutputMetrics initTaskRunner cont enc pth = Some r"
    and pool: "initTaskRunner_calls r = [CHUNK_SIZE]"
    and len: "length (runTask_calls r) = CHUNK_SIZE"
    and settled: "settled r = (case promise_all (map (initTaskRunner CHUNK_SIZE) (runTask_calls r)) of
                                 Inl error \<Rightarrow> Inl error
                               | Inr counts \<Rightarrow> Inr (sum_list counts))"
    using parallel_run [OF assms, of initTaskRunner enc pth] by simp
  have ok: "settled r = Inr (sum_list counts)"
    if "map (initTaskRunner CHUNK_SIZE) (runTask_calls r) = map Inr counts" for counts
    using that by (simp add: settled promise_all_fulfilled)
  have bad: "\<exists>e'. settled r = Inl e' \<and> Inl e' \<in> set (map (initTaskRunner CHUNK_SIZE) (runTask_calls r))"
    if rej: "Inl e \<in> set (map (initTaskRunner CHUNK_SIZE) (runTask_calls r))" for e
  proof -
    obtain e' where e': "promise_all (map (initTaskRunner CHUNK_SIZE) (runTask_calls r)) = Inl e'"
      using promise_all_rejects [OF rej] by blast
    then have "Inl e' \<in> set (map (initTaskRunner CHUNK_SIZE) (runTask_calls r))"
      by (rule promise_all_Inl_mem)
    with e' show ?thesis by (simp add: settled)
  qed
  show ?thesis using run pool len ok bad by blast
qed

text \<open>
  1,000,001 characters with a runner that counts characters: the sum over the chunks is
  1,000,001.
\<close>

theorem parallel_sum_witness:
  "\<exists>r. calculateOutputMetrics (\<lambda>n task. (Inr (length (content task)) :: unit + nat))
          (replicate 1000001 CHR ''a'') ''gpt2'' None = Some r \<and>
        settled r = Inr 1000001"
proof -
  let ?run = "\<lambda>n task. (Inr (length (content task)) :: unit + nat)"
  let ?cont = "replicate 1000001 CHR ''a''"
  have big: "MIN_CONTENT_LENGTH_FOR_PARALLEL < length ?cont"
    by (simp add: MIN_CONTENT_LENGTH_FOR_PARALLEL_def)
  obtain r where run: "calculateOutputMetrics ?run ?cont ''gpt2'' None = Some r"
    and sum: "\<forall>counts. map (?run CHUNK_SIZE) (runTask_calls r) = map Inr counts \<longrightarrow>
                settled r = Inr (sum_list counts)"
    using parallel_sum [OF big, of ?run "''gpt2''" None] by blast
  obtain r' where "calculateOutputMetrics ?run ?cont ''gpt2'' None = Some r'"
    and "concat (map content (runTask_calls r')) = ?cont"
    using parallel_run_whole [OF big, of ?run "''gpt2''" None] by blast
  with run have whole: "concat (map content (runTask_calls r)) = ?cont" by simp
  have "map (?run CHUNK_SIZE) (runTask_calls r) = map Inr (map (length \<circ> content) (runTask_calls r))"
    by simp
  with sum have "settled r = Inr (sum_list (map (length \<circ> content) (runTask_calls r)))"
    by blast
  also have "sum_list (map (length \<circ> content) (runTask_calls r))
               = length (concat (map content (runTask_calls r)))"
    by (simp add: length_concat comp_def)
  finally show ?thesis using run whole by simp
qed

section \<open>The metrics report\<close>

lemma fill_counts_dom:
  "dom (fst (fill_counts ms (chars, tokens))) = dom chars \<union> (FileMetrics.path ` set ms - {''__proto__''}) \<and>
   dom (snd (fill_counts ms (chars, tokens))) = dom tokens \<union> (FileMetrics.path ` set ms - {''__proto__''})"
  by (induction ms arbitrary: chars tokens) (auto simp: assign_def)

lemma calculateAllFileMetrics_paths:
  assumes "calculateAllFileMetrics count processedFiles enc = Inr ms"
  shows "map FileMetrics.path ms = map ProcessedFile.path processedFiles"
proof -
  have "map (\<lambda>file. case count enc (ProcessedFile.content file) of
                       Inl error \<Rightarrow> Inl error
                     | Inr n \<Rightarrow> Inr \<lparr>FileMetrics.path = ProcessedFile.path file,
                                     charCount = length (ProcessedFile.content file),
                                     tokenCount = n\<rparr>) processedFiles
          = map Inr ms"
    using assms unfolding calculateAllFileMetrics_def by (rule promise_all_Inr_D)
  then show ?thesis
  proof (induction processedFiles arbitrary: ms)
    case Nil
    then show ?case by simp
  next
    case (Cons f fs)
    then show ?case by (cases ms) (auto split: sum.splits)
  qed
qed

text \<open>
  What holds of every report. Whatever the two dependencies are, \<open>totalFiles\<close> is the
  number of file records and \<open>totalCharacters\<close> the length of the output string. With the
  per-file metrics as the spec describes them, the keys of both per-file mappings are the
  paths of the input files other than \<^verbatim>\<open>__proto__\<close>.
\<close>

lemma metrics_report_totals:
  "(calculateMetrics deps_all deps_output processedFiles output config = Inr report \<longrightarrow>
      totalFiles report = length processedFiles \<and> totalCharacters report = length output) \<and>
   (calculateMetrics (calculateAllFileMetrics count) deps_output processedFiles output config = Inr report' \<longrightarrow>
      dom (fileCharCounts report') = ProcessedFile.path ` set processedFiles - {''__proto__''} \<and>
      dom (fileTokenCounts report') = ProcessedFile.path ` set processedFiles - {''__proto__''})"
proof (intro conjI impI)
  assume "calculateMetrics deps_all deps_output processedFiles output config = Inr report"
  then show "totalFiles report = length processedFiles"
    and "totalCharacters report = length output"
    by (auto simp: calculateMetrics_def split: sum.splits prod.splits)
next
  assume r: "calculateMetrics (calculateAllFileMetrics count) deps_output processedFiles output config = Inr report'"
  then obtain ms where ms: "calculateAllFileMetrics count processedFiles (tokenCount_encoding config) = Inr ms"
    and chars: "fileCharCounts report' = fst (fill_counts ms (Map.empty, Map.empty))"
    and tokens: "fileTokenCounts report' = snd (fill_counts ms (Map.empty, Map.empty))"
    by (auto simp: calculateMetrics_def split: sum.splits prod.splits)
  have "FileMetrics.path ` set ms = ProcessedFile.path ` set processedFiles"
    using calculateAllFileMetrics_paths [OF ms] by (metis set_map)
  with fill_counts_dom [of ms Map.empty Map.empty] chars tokens
  show "dom (fileCharCounts report') = ProcessedFile.path ` set processedFiles - {''__proto__''}"
    and "dom (fileTokenCounts report') = ProcessedFile.path ` set processedFiles - {''__proto__''}"
    by simp_all
qed

lemma metrics_report_example:
  "calculateMetrics (calculateAllFileMetrics (\<lambda>enc s. (Inr (length s) :: unit + nat)))
      (\<lambda>out enc p. Inr 4)
      [\<lparr>ProcessedFile.path = ''a.ts'', content = ''ab''\<rparr>, \<lparr>ProcessedFile.path = ''b.ts'', content = ''cde''\<rparr>]
      ''ab cde'' \<lparr>tokenCount_encoding = ''o200k_base'', output_filePath = Some ''out.md''\<rparr>
   = Inr \<lparr>totalFiles = 2, totalCharacters = 6, totalTokens = 4,
          fileCharCounts = [''a.ts'' \<mapsto> 2, ''b.ts'' \<mapsto> 3],
          fileTokenCounts = [''a.ts'' \<mapsto> 2, ''b.ts'' \<mapsto> 3]\<rparr>"
  by (simp add: calculateMetrics_def calculateAllFileMetrics_def assign_def numeral_2_eq_2 numeral_3_eq_3)

text \<open>
  Claim C6 at its failing input. Of two files, one has the path \<^verbatim>\<open>__proto__\<close>. The report
  counts two files, and both per-file mappings hold the one entry of the other file: the
  assignment \<^verbatim>\<open>fileCharCounts[file.path] = file.charCount\<close> creates no entry for that path.
  The second equation injects the per-file metrics directly, as the \<^verbatim>\<open>deps\<close> parameter
  allows, and does not depend on how they are computed.
\<close>

theorem metrics_report_misses_proto_key:
  "calculateMetrics (calculateAllFileMetrics (\<lambda>enc s. (Inr (length s) :: unit + nat)))
      (\<lambda>out enc p. Inr 4)
      [\<lparr>ProcessedFile.path = ''a.ts'', content = ''ab''\<rparr>,
       \<lparr>ProcessedFile.path = ''__proto__'', content = ''cde''\<rparr>]
      ''ab cde'' \<lparr>tokenCount_encoding = ''o200k_base'', output_filePath = Some ''out.md''\<rparr>
   = Inr \<lparr>totalFiles = 2, totalCharacters = 6, totalTokens = 4,
          fileCharCounts = [''a.ts'' \<mapsto> 2],
          fileTokenCounts = [''a.ts'' \<mapsto> 2]\<rparr>
   \<and> calculateMetrics
      (\<lambda>files enc. (Inr [\<lparr>FileMetrics.path = ''a.ts'', charCount = 2, tokenCount = 2\<rparr>,
                          \<lparr>FileMetrics.path = ''__proto__'', charCount = 3, tokenCount = 3\<rparr>] :: unit + FileMetrics list))
      (\<lambda>out enc p. Inr 4)
      [\<lparr>ProcessedFile.path = ''a.ts'', content = ''ab''\<rparr>,
       \<lparr>ProcessedFile.path = ''__proto__'', content = ''cde''\<rparr>]
      ''ab cde'' \<lparr>tokenCount_encoding = ''o200k_base'', output_filePath = Some ''out.md''\<rparr>
   = Inr \<lparr>totalFiles = 2, totalCharacters = 6, totalTokens = 4,
          fileCharCounts = [''a.ts'' \<mapsto> 2],
          fileTokenCounts = [''a.ts'' \<mapsto> 2]\<rparr>"
  by (simp add: calculateMetrics_def calculateAllFileMetrics_def assign_def numeral_2_eq_2)

section \<open>What the client throws\<close>

lemma sublist_inner5: "sublist x (a @ b @ c @ x @ d)"
  using sublist_appendI [of x "a @ b @ c" d] by simp

lemma sublist_inner7: "sublist x (a @ b @ c @ d @ e @ x @ f)"
  using sublist_appendI [of x "a @ b @ c @ d @ e" f] by simp

lemma sublist_at_end8: "sublist x (a @ b @ c @ d @ e @ f @ g @ x)"
  using sublist_append_leftI [of x "a @ b @ c @ d @ e @ f @ g"] by simp

lemma read_not_nullish:
  assumes "v \<noteq> None" and "v \<noteq> Some JNull"
  shows "read v k = Inr (field v k)"
proof (cases v)
  case None
  with assms show ?thesis by simp
next
  case (Some x)
  with assms show ?thesis by (cases x) simp_all
qed

lemma handleError_listed:
  assumes "status resp \<in> {400, 402, 408, 409, 500}"
    and "data resp \<noteq> None" and "data resp \<noteq> Some JNull"
  shows "handleError stringify resp action
    = Inl (CodecrawlError
             (''Failed to '' @ action @ ''. Status code: '' @ show_nat (status resp) @ ''. Error: ''
                @ interpolate (if truthy (field (data resp) ''error'') then field (data resp) ''error''
                               else Some (JStr ''unknown error occured''))
                @ (case field (data resp) ''details'' of
                     None \<Rightarrow> []
                   | Some d \<Rightarrow> if truthy (Some d) then ''- '' @ stringify d else []))
             (Some (JNum (int (status resp))))
             (field (data resp) ''details''))"
  using assms(1) unfolding handleError_def Let_def and_then_def
  by (auto simp: read_not_nullish [OF assms(2,3)])

lemma handleError_other:
  assumes "status resp \<notin> {400, 402, 408, 409, 500}"
  shows "handleError stringify resp action
    = Inl (CodecrawlError
             (''Unexpected error occurred while '' @ action @ ''. Status code: ''
                @ show_nat (status resp) @ ''.'')
             (Some (JNum (int (status resp)))) None)"
  using assms unfolding handleError_def Let_def by auto

lemma handleError_throws: "\<exists>e. handleError stringify resp action = Inl e"
  unfolding handleError_def Let_def and_then_def
  by (auto split: sum.splits)

lemma asyncGenerateLLMsText_cases:
  "(\<exists>r. posted = Inr r \<and> status r = 200 \<and> asyncGenerateLLMsText stringify posted = Inr (data r))
   \<or> (\<exists>e. asyncGenerateLLMsText stringify posted = Inl e)"
proof (cases posted)
  case (Inl error)
  then show ?thesis by (simp add: asyncGenerateLLMsText_def)
next
  case (Inr r)
  show ?thesis
  proof (cases "status r = 200")
    case True
    with Inr show ?thesis by (simp add: asyncGenerateLLMsText_def)
  next
    case False
    obtain e where "handleError stringify r ''start LLMs.txt generation'' = Inl e"
      using handleError_throws by blast
    with Inr False show ?thesis by (simp add: asyncGenerateLLMsText_def)
  qed
qed

text \<open>
  What holds of \<open>handleError\<close> when the status is outside the list or the body is neither
  \<^verbatim>\<open>null\<close> nor \<^verbatim>\<open>undefined\<close>: it throws a \<open>CodecrawlError\<close> whose \<^verbatim>\<open>statusCode\<close> is the
  response's status. For a listed status the message contains the status, the server's
  error text when there is one, and the rendered details when there are any; for any
  other status the message is the generic one.
\<close>

lemma handleError_throws_CodecrawlError:
  assumes "status resp \<notin> {400, 402, 408, 409, 500} \<or> (data resp \<noteq> None \<and> data resp \<noteq> Some JNull)"
  shows "\<exists>msg det. handleError stringify resp action
                = Inl (CodecrawlError msg (Some (JNum (int (status resp)))) det) \<and>
      (if status resp \<in> {400, 402, 408, 409, 500}
       then sublist (show_nat (status resp)) msg \<and>
            (truthy (field (data resp) ''error'') \<longrightarrow>
               sublist (interpolate (field (data resp) ''error'')) msg) \<and>
            (\<forall>d. field (data resp) ''details'' = Some d \<and> truthy (Some d) \<longrightarrow>
                   sublist (stringify d) msg \<and> det = Some d)
       else msg = ''Unexpected error occurred while '' @ action @ ''. Status code: ''
                    @ show_nat (status resp) @ ''.'' \<and> det = None)"
proof (cases "status resp \<in> {400, 402, 408, 409, 500}")
  case True
  with assms have body: "data resp \<noteq> None" "data resp \<noteq> Some JNull" by auto
  define e where "e = interpolate (if truthy (field (data resp) ''error'') then field (data resp) ''error''
                                   else Some (JStr ''unknown error occured''))"
  define dt where "dt = (case field (data resp) ''details'' of
                           None \<Rightarrow> []
                         | Some d \<Rightarrow> if truthy (Some d) then ''- '' @ stringify d else [])"
  define msg where "msg = ''Failed to '' @ action @ ''. Status code: '' @ show_nat (status resp)
                            @ ''. Error: '' @ e @ dt"
  have raised: "handleError stringify resp action
                  = Inl (CodecrawlError msg (Some (JNum (int (status resp)))) (field (data resp) ''details''))"
    by (simp only: handleError_listed [OF True body] msg_def e_def dt_def)
  have has_code: "sublist (show_nat (status resp)) msg"
    unfolding msg_def by (rule sublist_inner5)
  have has_text: "sublist (interpolate (field (data resp) ''error'')) msg"
    if "truthy (field (data resp) ''error'')"
  proof -
    have "e = interpolate (field (data resp) ''error'')" using that by (simp add: e_def)
    then show ?thesis unfolding msg_def by (simp only: sublist_inner7)
  qed
  have has_details: "sublist (stringify d) msg \<and> field (data resp) ''details'' = Some d"
    if "field (data resp) ''details'' = Some d \<and> truthy (Some d)" for d
  proof -
    have "dt = ''- '' @ stringify d" using that by (simp add: dt_def)
    then have "sublist (stringify d) msg" unfolding msg_def by (simp only: sublist_at_end8)
    with that show ?thesis by simp
  qed
  show ?thesis
    using raised has_code has_text has_details True by (simp only: if_True) blast
next
  case False
  show ?thesis
    unfolding handleError_other [OF False] using False by simp
qed

lemma handleError_example:
  "handleError js_String
     \<lparr>status = 400, data = Some (JObj [''error'' \<mapsto> JStr ''bad url'', ''details'' \<mapsto> JNum 7])\<rparr>
     ''start LLMs.txt generation''
   = Inl (CodecrawlError ''Failed to start LLMs.txt generation. Status code: 400. Error: bad url- 7''
            (Some (JNum 400)) (Some (JNum 7)))"
  by (simp add: handleError_def and_then_def interpolate_def show_nat.simps show_int_def digit_char_def)

text \<open>
  Claim C10 at its failing input: a response with status 500 whose body is \<^verbatim>\<open>null\<close>.
  \<open>handleError\<close> throws a \<open>TypeError\<close>, not a \<open>CodecrawlError\<close>: the reads
  \<^verbatim>\<open>response.data.error\<close> and \<^verbatim>\<open>response.data.details\<close> lack the guard that
  \<^verbatim>\<open>response?.data?.details\<close> has three lines below. Through
  \<open>checkGenerateLLMsTextStatus\<close> the caller gets a \<open>CodecrawlError\<close> whose message is the
  \<open>TypeError\<close>'s.
\<close>

theorem handleError_null_body_TypeError:
  "handleError stringify \<lparr>status = 500, data = Some JNull\<rparr> action
     = Inl (TypeError ''Cannot read properties of null (reading 'error')'')
   \<and> checkGenerateLLMsTextStatus stringify (Inl (AxiosError m (Some \<lparr>status = 500, data = Some JNull\<rparr>)))
     = Inl (CodecrawlError ''Cannot read properties of null (reading 'error')'' (Some (JNum 500)) None)"
  by (simp add: handleError_def and_then_def cannot_read_def checkGenerateLLMsTextStatus_def
        getRequest_def check_catch_def)

section \<open>The polling loop\<close>

lemma is_object_not_nullish:
  assumes "is_object g"
  shows "g \<noteq> None" and "g \<noteq> Some JNull"
  using assms by (cases g; auto)+

lemma loop_pass_object:
  assumes "is_object g"
  shows "loop_pass g =
    (if field g ''error'' \<noteq> None \<and> \<not> truthy (field g ''success'') then Inr (Return g)
     else if field g ''status'' = Some (JStr ''completed'') then Inr (Return g)
     else if field g ''status'' = Some (JStr ''failed'')
     then Inl (CodecrawlError
                 (''LLMs.txt generation failed. Status code: '' @ interpolate (field g ''status'')
                    @ ''. Error: '' @ interpolate (field g ''error''))
                 (field g ''statusCode'') None)
     else if field g ''status'' \<noteq> Some (JStr ''processing'') then Inr Break
     else Inr Continue)"
proof -
  have r: "read g k = Inr (field g k)" for k
    using is_object_not_nullish [OF assms] by (rule read_not_nullish)
  have i: "js_in ''error'' g = Inr (field g ''error'' \<noteq> None)"
    using assms by (auto simp: js_in_def split: option.splits)
  show ?thesis
    unfolding loop_pass_def by (simp add: r i and_then_def)
qed

lemma loop_pass_not_object:
  assumes "\<not> is_object g"
  shows "loop_pass g
         = Inl (TypeError (''Cannot use 'in' operator to search for 'error' in '' @ interpolate g))"
  using assms by (simp add: loop_pass_def js_in_def and_then_def)

lemma poll_loop_step:
  assumes "checkGenerateLLMsTextStatus stringify
             (server (apiUrl this @ ''/v1/llmstxt/'' @ interpolate jobId) n) = Inr g"
    and "field g ''status'' = Some (JStr ''processing'')"
    and "field g ''error'' \<noteq> None \<longrightarrow> truthy (field g ''success'')"
  shows "poll_loop stringify server this jobId n events
         = poll_loop stringify server this jobId (Suc n)
             (events @ [GetRequest (apiUrl this @ ''/v1/llmstxt/'' @ interpolate jobId), Timeout 2000])"
proof -
  have "is_object g" using assms(2) by (cases g rule: is_object.cases) simp_all
  then have "loop_pass g = Inr Continue"
    using assms(2,3) by (auto simp: loop_pass_object)
  with assms(1) show ?thesis
    by (subst poll_loop.simps) (simp add: Let_def)
qed

lemma poll_loop_processing:
  assumes "\<forall>j<k. \<exists>g. checkGenerateLLMsTextStatus stringify
                         (server (apiUrl this @ ''/v1/llmstxt/'' @ interpolate jobId) (n + j)) = Inr g
                     \<and> field g ''status'' = Some (JStr ''processing'')
                     \<and> (field g ''error'' \<noteq> None \<longrightarrow> truthy (field g ''success''))"
  shows "poll_loop stringify server this jobId n events
         = poll_loop stringify server this jobId (n + k)
             (events @ concat (replicate k
                [GetRequest (apiUrl this @ ''/v1/llmstxt/'' @ interpolate jobId), Timeout 2000]))"
  using assms
proof (induction k arbitrary: n events)
  case 0
  show ?case by simp
next
  case (Suc k)
  let ?url = "apiUrl this @ ''/v1/llmstxt/'' @ interpolate jobId"
  from Suc.prems have "\<exists>g. checkGenerateLLMsTextStatus stringify (server ?url (n + 0)) = Inr g
                     \<and> field g ''status'' = Some (JStr ''processing'')
                     \<and> (field g ''error'' \<noteq> None \<longrightarrow> truthy (field g ''success''))"
    by blast
  then obtain g where "checkGenerateLLMsTextStatus stringify (server ?url n) = Inr g"
    and "field g ''status'' = Some (JStr ''processing'')"
    and "field g ''error'' \<noteq> None \<longrightarrow> truthy (field g ''success'')"
    by auto
  then have first: "poll_loop stringify server this jobId n events
         = poll_loop stringify server this jobId (Suc n) (events @ [GetRequest ?url, Timeout 2000])"
    by (rule poll_loop_step)
  have "\<forall>j<k. \<exists>g. checkGenerateLLMsTextStatus stringify (server ?url (Suc n + j)) = Inr g
                     \<and> field g ''status'' = Some (JStr ''processing'')
                     \<and> (field g ''error'' \<noteq> None \<longrightarrow> truthy (field g ''success''))"
  proof (intro allI impI)
    fix j assume "j < k"
    then have "Suc j < Suc k" by simp
    with Suc.prems show "\<exists>g. checkGenerateLLMsTextStatus stringify (server ?url (Suc n + j)) = Inr g
                     \<and> field g ''status'' = Some (JStr ''processing'')
                     \<and> (field g ''error'' \<noteq> None \<longrightarrow> truthy (field g ''success''))"
      by (metis add_Suc_shift)
  qed
  then have rest: "poll_loop stringify server this jobId (Suc n) (events @ [GetRequest ?url, Timeout 2000])
         = poll_loop stringify server this jobId (Suc n + k)
             ((events @ [GetRequest ?url, Timeout 2000]) @ concat (replicate k [GetRequest ?url, Timeout 2000]))"
    by (rule Suc.IH)
  show ?case unfolding first rest by simp
qed

text \<open>
  Claim C9, as the code has it. Let the first \<open>k\<close> polls answer \<^verbatim>\<open>processing\<close> and poll
  \<open>k\<close> answer with a body that is an object (or an array) and whose status is none of
  \<^verbatim>\<open>processing\<close>, \<^verbatim>\<open>completed\<close>, \<^verbatim>\<open>failed\<close>. Then the loop ends at poll \<open>k\<close>, with no
  request after it. When the body has an \<^verbatim>\<open>error\<close> field and no truthy \<^verbatim>\<open>success\<close>, the
  body itself is returned; otherwise the result is the error response whose text names
  the unexpected status.
\<close>

theorem poll_loop_unexpected_status:
  assumes "\<forall>j<k. \<exists>g. checkGenerateLLMsTextStatus stringify
                         (server (apiUrl this @ ''/v1/llmstxt/'' @ interpolate jobId) j) = Inr g
                     \<and> field g ''status'' = Some (JStr ''processing'')
                     \<and> (field g ''error'' \<noteq> None \<longrightarrow> truthy (field g ''success''))"
    and "checkGenerateLLMsTextStatus stringify
           (server (apiUrl this @ ''/v1/llmstxt/'' @ interpolate jobId) k) = Inr g"
    and "is_object g"
    and "field g ''status'' \<notin> {Some (JStr ''processing''), Some (JStr ''completed''), Some (JStr ''failed'')}"
  shows "poll_loop stringify server this jobId 0 events
         = Some (Inr (if field g ''error'' \<noteq> None \<and> \<not> truthy (field g ''success'') then g
                      else Some (JObj [''success'' \<mapsto> JBool False,
                            ''error'' \<mapsto> JStr (''LLMs.txt generation ended with unexpected status: ''
                               @ (case field g ''status'' of
                                    None \<Rightarrow> ''unknown''
                                  | Some JNull \<Rightarrow> ''unknown''
                                  | Some v \<Rightarrow> js_String v))])),
                 events
                 @ concat (replicate k
                     [GetRequest (apiUrl this @ ''/v1/llmstxt/'' @ interpolate jobId), Timeout 2000])
                 @ [GetRequest (apiUrl this @ ''/v1/llmstxt/'' @ interpolate jobId)])"
proof -
  let ?url = "apiUrl this @ ''/v1/llmstxt/'' @ interpolate jobId"
  have pass: "loop_pass g = (if field g ''error'' \<noteq> None \<and> \<not> truthy (field g ''success'')
                             then Inr (Return g) else Inr Break)"
    using assms(4) by (simp add: loop_pass_object [OF assms(3)])
  have "poll_loop stringify server this jobId 0 events
        = poll_loop stringify server this jobId (0 + k)
            (events @ concat (replicate k [GetRequest ?url, Timeout 2000]))"
    by (rule poll_loop_processing) (use assms(1) in simp)
  also have "\<dots> = Some (Inr (if field g ''error'' \<noteq> None \<and> \<not> truthy (field g ''success'') then g
                      else Some (JObj [''success'' \<mapsto> JBool False,
                            ''error'' \<mapsto> JStr (''LLMs.txt generation ended with unexpected status: ''
                               @ (case field g ''status'' of
                                    None \<Rightarrow> ''unknown''
                                  | Some JNull \<Rightarrow> ''unknown''
                                  | Some v \<Rightarrow> js_String v))])),
                 (events @ concat (replicate k [GetRequest ?url, Timeout 2000])) @ [GetRequest ?url])"
    using assms(2) by (subst poll_loop.simps) (simp add: Let_def pass after_loop_def)
  finally show ?thesis by simp
qed

text \<open>One poll answers \<^verbatim>\<open>processing\<close>, the next \<^verbatim>\<open>cancelled\<close>.\<close>

theorem poll_loop_unexpected_status_witness:
  "poll_loop js_String
     (\<lambda>url n. if n = 0 then Inr \<lparr>status = 200, data = Some (JObj [''status'' \<mapsto> JStr ''processing''])\<rparr>
               else Inr \<lparr>status = 200, data = Some (JObj [''status'' \<mapsto> JStr ''cancelled''])\<rparr>)
     \<lparr>apiKey = ''key'', apiUrl = ''https://api.irere.dev''\<rparr> (Some (JStr ''job-123'')) 0 []
   = Some (Inr (Some (JObj [''success'' \<mapsto> JBool False,
                ''error'' \<mapsto> JStr ''LLMs.txt generation ended with unexpected status: cancelled''])),
           [GetRequest ''https://api.irere.dev/v1/llmstxt/job-123'', Timeout 2000,
            GetRequest ''https://api.irere.dev/v1/llmstxt/job-123''])"
  using poll_loop_unexpected_status
    [of 1 js_String
        "\<lambda>url n. if n = 0 then Inr \<lparr>status = 200, data = Some (JObj [''status'' \<mapsto> JStr ''processing''])\<rparr>
                  else Inr \<lparr>status = 200, data = Some (JObj [''status'' \<mapsto> JStr ''cancelled''])\<rparr>"
        "\<lparr>apiKey = ''key'', apiUrl = ''https://api.irere.dev''\<rparr>" "Some (JStr ''job-123'')"
        "Some (JObj [''status'' \<mapsto> JStr ''cancelled''])" "[]"]
  by (simp add: checkGenerateLLMsTextStatus_def getRequest_def interpolate_def)

text \<open>
  Claim C9 as stated fails: a body with the status \<^verbatim>\<open>cancelled\<close>, an \<^verbatim>\<open>error\<close> field and
  \<^verbatim>\<open>success: false\<close> is returned as it came, not as an unexpected-status failure.
\<close>

theorem poll_loop_error_body_counterexample:
  "poll_loop js_String
     (\<lambda>url n. Inr \<lparr>status = 200,
                    data = Some (JObj [''success'' \<mapsto> JBool False, ''error'' \<mapsto> JStr ''quota exceeded'',
                                       ''status'' \<mapsto> JStr ''cancelled''])\<rparr>)
     \<lparr>apiKey = ''key'', apiUrl = ''https://api.irere.dev''\<rparr> (Some (JStr ''job-123'')) 0 []
   = Some (Inr (Some (JObj [''success'' \<mapsto> JBool False, ''error'' \<mapsto> JStr ''quota exceeded'',
                ''status'' \<mapsto> JStr ''cancelled''])),
           [GetRequest ''https://api.irere.dev/v1/llmstxt/job-123''])"
  by (subst poll_loop.simps)
     (simp add: checkGenerateLLMsTextStatus_def getRequest_def loop_pass_def js_in_def and_then_def
        interpolate_def Let_def)

text \<open>
  A body that is not an object (\<^verbatim>\<open>null\<close>, a string, a number) ends the loop as well, by
  the \<open>TypeError\<close> of \<^verbatim>\<open>'error' in generationStatus\<close>.
\<close>

lemma poll_loop_not_object:
  assumes "\<forall>j<k. \<exists>g. checkGenerateLLMsTextStatus stringify
                         (server (apiUrl this @ ''/v1/llmstxt/'' @ interpolate jobId) j) = Inr g
                     \<and> field g ''status'' = Some (JStr ''processing'')
                     \<and> (field g ''error'' \<noteq> None \<longrightarrow> truthy (field g ''success''))"
    and "checkGenerateLLMsTextStatus stringify
           (server (apiUrl this @ ''/v1/llmstxt/'' @ interpolate jobId) k) = Inr g"
    and "\<not> is_object g"
  shows "poll_loop stringify server this jobId 0 events
         = Some (Inl (TypeError (''Cannot use 'in' operator to search for 'error' in '' @ interpolate g)),
                 events
                 @ concat (replicate k
                     [GetRequest (apiUrl this @ ''/v1/llmstxt/'' @ interpolate jobId), Timeout 2000])
                 @ [GetRequest (apiUrl this @ ''/v1/llmstxt/'' @ interpolate jobId)])"
proof -
  let ?url = "apiUrl this @ ''/v1/llmstxt/'' @ interpolate jobId"
  have "poll_loop stringify server this jobId 0 events
        = poll_loop stringify server this jobId (0 + k)
            (events @ concat (replicate k [GetRequest ?url, Timeout 2000]))"
    by (rule poll_loop_processing) (use assms(1) in simp)
  also have "\<dots> = Some (Inl (TypeError (''Cannot use 'in' operator to search for 'error' in '' @ interpolate g)),
                 (events @ concat (replicate k [GetRequest ?url, Timeout 2000])) @ [GetRequest ?url])"
    using assms(2) by (subst poll_loop.simps) (simp add: Let_def loop_pass_not_object [OF assms(3)])
  finally show ?thesis by simp
qed

section \<open>Submission and polling together\<close>

text \<open>
  When the submission's body is an object with an id, no truthy \<^verbatim>\<open>success\<close> and no
  \<^verbatim>\<open>error\<close> field, the client polls: after \<open>k\<close> answers \<^verbatim>\<open>processing\<close> and one
  \<^verbatim>\<open>completed\<close> it returns the completed body, having made \<open>k + 1\<close> requests with a timer
  of 2000 ms between them.
\<close>

lemma generateLLMsTxt_polls_until_completed:
  assumes "\<not> truthy (body ''success'')" and "body ''error'' = None" and "truthy (body ''id'')"
    and "\<forall>j<k. \<exists>g. checkGenerateLLMsTextStatus stringify
                         (server (apiUrl this @ ''/v1/llmstxt/'' @ interpolate (body ''id'')) j) = Inr g
                     \<and> field g ''status'' = Some (JStr ''processing'')
                     \<and> (field g ''error'' \<noteq> None \<longrightarrow> truthy (field g ''success''))"
    and "checkGenerateLLMsTextStatus stringify
           (server (apiUrl this @ ''/v1/llmstxt/'' @ interpolate (body ''id'')) k) = Inr g"
    and "field g ''status'' = Some (JStr ''completed'')"
    and "field g ''error'' \<noteq> None \<longrightarrow> truthy (field g ''success'')"
  shows "generateLLMsTxt stringify (Inr \<lparr>status = 200, data = Some (JObj body)\<rparr>) server this
         = Some (Inr g,
                 [PostRequest (apiUrl this @ ''/v1/llmstxt'')]
                 @ concat (replicate k
                     [GetRequest (apiUrl this @ ''/v1/llmstxt/'' @ interpolate (body ''id'')), Timeout 2000])
                 @ [GetRequest (apiUrl this @ ''/v1/llmstxt/'' @ interpolate (body ''id''))])"
proof -
  let ?url = "apiUrl this @ ''/v1/llmstxt/'' @ interpolate (body ''id'')"
  let ?ev = "[PostRequest (apiUrl this @ ''/v1/llmstxt'')]"
  have "is_object g" using assms(6) by (cases g rule: is_object.cases) simp_all
  then have pass: "loop_pass g = Inr (Return g)"
    using assms(6,7) by (auto simp: loop_pass_object)
  have "poll_loop stringify server this (body ''id'') 0 ?ev
        = poll_loop stringify server this (body ''id'') (0 + k)
            (?ev @ concat (replicate k [GetRequest ?url, Timeout 2000]))"
    by (rule poll_loop_processing) (use assms(4) in simp)
  also have "\<dots> = Some (Inr g, (?ev @ concat (replicate k [GetRequest ?url, Timeout 2000])) @ [GetRequest ?url])"
    using assms(5) by (subst poll_loop.simps) (simp add: Let_def pass)
  finally have "poll_loop stringify server this (body ''id'') 0 ?ev
        = Some (Inr g, ?ev @ concat (replicate k [GetRequest ?url, Timeout 2000]) @ [GetRequest ?url])"
    by simp
  moreover have "before_loop (Some (JObj body)) = Inr (Inr (body ''id''))"
    using assms(1,2,3) by (simp add: before_loop_def and_then_def js_in_def)
  ultimately show ?thesis
    by (simp add: generateLLMsTxt_def asyncGenerateLLMsText_def Let_def)
qed

text \<open>
  Claim C1 at its failing input. The submission is answered with status 200 and the body
  \<^verbatim>\<open>{success: true, id: "job-123"}\<close>. Whatever the server would answer to the polls, the
  method returns \<^verbatim>\<open>{success: false, error: "unknown error"}\<close> after the POST and polls
  never: the test \<^verbatim>\<open>response.success || 'error' in response\<close> takes the early return for
  a successful submission.
\<close>

theorem generateLLMsTxt_success_flag_stops:
  "generateLLMsTxt stringify
     (Inr \<lparr>status = 200, data = Some (JObj [''success'' \<mapsto> JBool True, ''id'' \<mapsto> JStr ''job-123''])\<rparr>)
     server this
   = Some (Inr (Some (JObj [''success'' \<mapsto> JBool False, ''error'' \<mapsto> JStr ''unknown error''])),
           [PostRequest (apiUrl this @ ''/v1/llmstxt'')])"
  by (simp add: generateLLMsTxt_def asyncGenerateLLMsText_def before_loop_def and_then_def
        Let_def js_in_def)

text \<open>
  Claim C7 at its failing input. A poll answered with status 404 makes
  \<open>checkGenerateLLMsTextStatus\<close> throw the job-not-found error from inside its own
  \<^verbatim>\<open>try\<close>; its \<^verbatim>\<open>catch\<close> block throws a new error with the same message and status
  code 500. \<open>generateLLMsTxt\<close> throws that error after one GET and polls no further.
\<close>

theorem job_not_found_carries_500:
  "checkGenerateLLMsTextStatus stringify (Inl (AxiosError m (Some \<lparr>status = 404, data = d\<rparr>)))
     = Inl (CodecrawlError ''LLMs.txt generation job not found'' (Some (JNum 500)) None)
   \<and> checkGenerateLLMsTextStatus stringify (Inr \<lparr>status = 404, data = d\<rparr>)
     = Inl (CodecrawlError ''LLMs.txt generation job not found'' (Some (JNum 500)) None)
   \<and> generateLLMsTxt stringify (Inr \<lparr>status = 200, data = Some (JObj [''id'' \<mapsto> JStr ''job-123''])\<rparr>)
       (\<lambda>url n. Inl (AxiosError m (Some \<lparr>status = 404, data = d\<rparr>))) this
     = Some (Inl (CodecrawlError ''LLMs.txt generation job not found'' (Some (JNum 500)) None),
             [PostRequest (apiUrl this @ ''/v1/llmstxt''),
              GetRequest (apiUrl this @ ''/v1/llmstxt/job-123'')])"
proof -
  have a: "checkGenerateLLMsTextStatus stringify (Inl (AxiosError m (Some \<lparr>status = 404, data = d\<rparr>)))
     = Inl (CodecrawlError ''LLMs.txt generation job not found'' (Some (JNum 500)) None)"
    by (simp add: checkGenerateLLMsTextStatus_def getRequest_def check_catch_def)
  have b: "checkGenerateLLMsTextStatus stringify (Inr \<lparr>status = 404, data = d\<rparr>)
     = Inl (CodecrawlError ''LLMs.txt generation job not found'' (Some (JNum 500)) None)"
    by (simp add: checkGenerateLLMsTextStatus_def getRequest_def check_catch_def)
  have "poll_loop stringify (\<lambda>url n. Inl (AxiosError m (Some \<lparr>status = 404, data = d\<rparr>))) this
          (Some (JStr ''job-123'')) 0 [PostRequest (apiUrl this @ ''/v1/llmstxt'')]
        = Some (Inl (CodecrawlError ''LLMs.txt generation job not found'' (Some (JNum 500)) None),
                [PostRequest (apiUrl this @ ''/v1/llmstxt''),
                 GetRequest (apiUrl this @ ''/v1/llmstxt/job-123'')])"
    by (subst poll_loop.simps) (simp add: a Let_def interpolate_def)
  then have c: "generateLLMsTxt stringify (Inr \<lparr>status = 200, data = Some (JObj [''id'' \<mapsto> JStr ''job-123''])\<rparr>)
       (\<lambda>url n. Inl (AxiosError m (Some \<lparr>status = 404, data = d\<rparr>))) this
     = Some (Inl (CodecrawlError ''LLMs.txt generation job not found'' (Some (JNum 500)) None),
             [PostRequest (apiUrl this @ ''/v1/llmstxt''),
              GetRequest (apiUrl this @ ''/v1/llmstxt/job-123'')])"
    by (simp add: generateLLMsTxt_def asyncGenerateLLMsText_def before_loop_def and_then_def
          Let_def js_in_def generate_catch_def)
  from a b c show ?thesis by simp
qed

end
